theory Spec2Isabelle
  imports Complex_Main "HOL-Library.Word"
begin

unbundle bit_operations_syntax

section \<open>Streaming I/O of the B100 driver (host/lib/usrp/b100/io\_impl.cpp)\<close>

text \<open>
  The development follows \<^verbatim>\<open>io_impl.cpp\<close> function by function. C++ \<^verbatim>\<open>size_t\<close>
  is a 64-bit word, \<^verbatim>\<open>boost::uint32_t\<close> a 32-bit word, \<^verbatim>\<open>double\<close> values are
  only carried around and are kept as reals. Undefined behaviour of the C++ (an index
  outside a \<^verbatim>\<open>std::vector\<close>, a read past the end of a buffer, a division by zero) and
  thrown exceptions are values of the type \<open>fault\<close>.
\<close>

type_synonym size_t = "64 word"
type_synonym uint32_t = "32 word"

datatype fault =
    OutOfRange
  | DivByZero
  | value_error string
  | lookup_error string

subsection \<open>uhd::transport::bounded\_buffer\<close>

text \<open>
  The header \<^verbatim>\<open>uhd/transport/bounded_buffer.hpp\<close> is not part of the sources at hand.
  The container is kept oldest element first.
\<close>

record 'a bounded_buffer =
  capacity :: nat
  items :: "'a list"

text \<open>Modelled from the spec: the constructor of \<^verbatim>\<open>bounded_buffer\<close>, a fixed-capacity
  FIFO keyed by insertion order that starts out empty.\<close>

definition bounded_buffer_new :: "nat \<Rightarrow> 'a bounded_buffer" where
  "bounded_buffer_new n = \<lparr>capacity = n, items = []\<rparr>"

text \<open>Modelled from the spec: \<^verbatim>\<open>bounded_buffer::push_with_pop_on_full\<close>, the push
  of section 4.2: if full, evict the oldest record to make room; never blocks, never
  fails. The flag returned tells whether nothing had to be evicted.\<close>

definition push_with_pop_on_full :: "'a bounded_buffer \<Rightarrow> 'a \<Rightarrow> bool \<times> 'a bounded_buffer" where
  "push_with_pop_on_full q elem =
     (if capacity q \<le> length (items q)
      then (False, q\<lparr>items := tl (items q) @ [elem]\<rparr>)
      else (True, q\<lparr>items := items q @ [elem]\<rparr>))"

text \<open>Modelled from the spec: \<^verbatim>\<open>bounded_buffer::pop_with_haste\<close>, the removal without
  blocking of section 4.3 step 1: if the queue has an element, remove and return the
  oldest one.\<close>

definition pop_with_haste :: "'a bounded_buffer \<Rightarrow> 'a option \<times> 'a bounded_buffer" where
  "pop_with_haste q =
     (case items q of
        [] \<Rightarrow> (None, q)
      | elem # rest \<Rightarrow> (Some elem, q\<lparr>items := rest\<rparr>))"

text \<open>Modelled from the spec: \<^verbatim>\<open>bounded_buffer::pop_with_timed_wait\<close>, the pop of
  section 4.2, in a sequential run where nothing is pushed during the wait: an element
  that is available is returned, otherwise the timeout elapses and nothing is returned.\<close>

definition pop_with_timed_wait :: "'a bounded_buffer \<Rightarrow> real \<Rightarrow> 'a option \<times> 'a bounded_buffer" where
  "pop_with_timed_wait q timeout = pop_with_haste q"

subsection \<open>Packet header info, metadata and messages\<close>

datatype packet_type_t = PACKET_TYPE_DATA | PACKET_TYPE_EXTENSION | PACKET_TYPE_CONTEXT

record if_packet_info_t =
  packet_type :: packet_type_t
  num_payload_words32 :: size_t
  num_header_words32 :: size_t
  num_packet_words32 :: size_t
  packet_count :: size_t
  sob :: bool
  eob :: bool
  has_sid :: bool
  sid :: uint32_t
  has_cid :: bool
  cid :: "64 word"
  has_tsi :: bool
  tsi :: uint32_t
  has_tsf :: bool
  tsf :: "64 word"
  has_tlr :: bool
  tlr :: uint32_t

text \<open>\<^verbatim>\<open>time_spec_t(time_t(tsi), size_t(tsf), rate)\<close>: the three arguments, unconverted.\<close>

record time_spec_t =
  full_secs :: uint32_t
  tick_count :: size_t
  tick_rate :: real

record async_metadata_t =
  channel :: size_t
  has_time_spec :: bool
  time_spec :: time_spec_t
  event_code :: uint32_t

text \<open>What is streamed into \<^verbatim>\<open>UHD_MSG(error)\<close> and \<^verbatim>\<open>UHD_MSG(fastpath)\<close>.\<close>

datatype msg_part = Str string | U32 uint32_t

datatype uhd_msg = error "msg_part list" | fastpath "msg_part list"

subsection \<open>struct b100\_impl::io\_impl\<close>

type_synonym managed_recv_buffer = "uint32_t list"

text \<open>
  The packet handlers keep one entry per channel. For the receive handler an entry holds
  the channel index bound into \<^verbatim>\<open>io_impl::get_recv_buff\<close> and the index of the DSP whose
  \<^verbatim>\<open>handle_overflow\<close> is bound; for the send handler, whether the transport's
  \<^verbatim>\<open>get_send_buff\<close> is bound.
\<close>

record recv_chan =
  xport_chan_get_buff :: "size_t option"
  overflow_handler :: "nat option"

record send_chan =
  xport_chan_get_send_buff :: bool

text \<open>\<^verbatim>\<open>resize\<close> of a handler, as of the \<^verbatim>\<open>std::vector\<close> inside it.\<close>

definition resize :: "'a \<Rightarrow> nat \<Rightarrow> 'a list \<Rightarrow> 'a list" where
  "resize dflt n xs = take n xs @ replicate (n - length xs) dflt"

text \<open>
  The transport is an external collaborator: \<open>data_transport s n t\<close> is what its
  \<^verbatim>\<open>get_recv_buff(t)\<close> hands out at call number \<open>n\<close>, \<open>None\<close> for the null buffer of
  a timeout; \<open>xport_calls\<close> counts the calls made so far. The messages written
  through \<^verbatim>\<open>UHD_MSG\<close> are collected in \<open>msgs\<close>.
\<close>

record io_impl =
  data_transport :: "nat \<Rightarrow> real \<Rightarrow> managed_recv_buffer option"
  xport_calls :: nat
  async_msg_fifo :: "async_metadata_t bounded_buffer"
  buffs_queue :: "managed_recv_buffer bounded_buffer list"
  recv_handler :: "recv_chan list"
  send_handler :: "send_chan list"
  msgs :: "uhd_msg list"

text \<open>The constructor; \<open>num_recv_frames\<close> is the transport's \<^verbatim>\<open>get_num_recv_frames()\<close>.
  The two packet handlers are default-constructed by code kept elsewhere; they are taken
  to start with no channel, and nothing proved below depends on how they start, since
  \<^verbatim>\<open>update_rx_subdev_spec\<close> and \<^verbatim>\<open>update_tx_subdev_spec\<close> resize them.\<close>

definition io_impl_new ::
  "(nat \<Rightarrow> real \<Rightarrow> managed_recv_buffer option) \<Rightarrow> nat \<Rightarrow> size_t \<Rightarrow> io_impl" where
  "io_impl_new xport num_recv_frames recv_width =
     \<lparr>data_transport = xport,
      xport_calls = 0,
      async_msg_fifo = bounded_buffer_new 100,
      buffs_queue = replicate (unat recv_width) (bounded_buffer_new num_recv_frames),
      recv_handler = [],
      send_handler = [],
      msgs = []\<rparr>"

subsection \<open>The device object b100\_impl\<close>

datatype byteorder_t = BO_NATIVE | BO_BIG_ENDIAN | BO_LITTLE_ENDIAN | BO_NOT_APPLICABLE

record otw_type_t =
  width :: size_t
  shift :: size_t
  byteorder :: byteorder_t

record subdev_spec_pair_t =
  db_name :: string
  sd_name :: string

type_synonym subdev_spec_t = "subdev_spec_pair_t list"

text \<open>A path of the property tree is the list of its components; the tree maps the
  paths it holds to their values.\<close>

type_synonym property_tree = "string list \<rightharpoonup> string"

record rx_dsp_core_200 =
  rx_mux :: string
  nsamps_per_packet :: size_t

record tx_frontend_core_200 =
  tx_mux :: string

record b100_impl =
  tree :: property_tree
  rx_dsps :: "rx_dsp_core_200 list"
  tx_fe :: tx_frontend_core_200
  fpga_clock_rate :: real
  rx_otw_type :: otw_type_t
  tx_otw_type :: otw_type_t
  io :: io_impl


subsection \<open>Declarations used by the file and kept elsewhere in the repository\<close>

text \<open>
  Constants, sizes and helper functions that \<^verbatim>\<open>io_impl.cpp\<close> takes from headers that
  are not among the sources at hand; every function of the file takes them as the
  parameter \<open>env\<close>. The two stream id constants have the type of the stream ids they
  are compared with and subtracted from, \<^verbatim>\<open>boost::uint32_t\<close>. A helper that can throw
  returns the message of its exception. \<open>if_hdr_unpack_le\<close> receives the header info
  by reference: it returns the exception thrown, if any, together with the contents the
  info is left with. \<open>sizeof_cid\<close> and \<open>sizeof_tlr\<close> are the sizes in bytes of the
  fields \<^verbatim>\<open>cid\<close> and \<^verbatim>\<open>tlr\<close> of \<^verbatim>\<open>vrt::if_packet_info_t\<close>.
\<close>

record env =
  B100_RX_SID_BASE :: uint32_t
  B100_TX_ASYNC_SID :: uint32_t
  wtohx :: "uint32_t \<Rightarrow> uint32_t"
  if_hdr_unpack_le :: "uint32_t list \<Rightarrow> if_packet_info_t \<Rightarrow> string option \<times> if_packet_info_t"
  get_context_code :: "uint32_t list \<Rightarrow> if_packet_info_t \<Rightarrow> uint32_t"
  EVENT_CODE_UNDERFLOW :: uint32_t
  EVENT_CODE_UNDERFLOW_IN_PACKET :: uint32_t
  EVENT_CODE_SEQ_ERROR :: uint32_t
  EVENT_CODE_SEQ_ERROR_IN_BURST :: uint32_t
  max_if_hdr_words32 :: size_t
  sizeof_cid :: size_t
  sizeof_tlr :: size_t
  get_sample_size :: "otw_type_t \<Rightarrow> size_t"
  validate_subdev_spec :: "property_tree \<Rightarrow> subdev_spec_t \<Rightarrow> string \<Rightarrow> string option"

subsection \<open>io\_impl::get\_recv\_buff\<close>

text \<open>
  The \<^verbatim>\<open>while (true)\<close> loop: a call that never returns has the value \<open>None\<close>.
  A call that returns yields a fault or the buffer handed out (\<open>None\<close> for the null
  buffer) with the state it leaves.
\<close>

partial_function (option) get_recv_buff ::
  "env \<Rightarrow> size_t \<Rightarrow> real \<Rightarrow> io_impl \<Rightarrow> (fault + managed_recv_buffer option \<times> io_impl) option"
where
  "get_recv_buff env index timeout s =
     (if \<not> unat index < length (buffs_queue s) then Some (Inl OutOfRange)
      else case pop_with_haste (buffs_queue s ! unat index) of
        (Some buff, q) \<Rightarrow>
          Some (Inr (Some buff, s\<lparr>buffs_queue := (buffs_queue s)[unat index := q]\<rparr>))
      | (None, q) \<Rightarrow>
         (case data_transport s (xport_calls s) timeout of
            None \<Rightarrow> Some (Inr (None, s\<lparr>xport_calls := Suc (xport_calls s)\<rparr>))
          | Some buff \<Rightarrow>
              if \<not> 1 < length buff then Some (Inl OutOfRange)
              else
                let vrt_hdr = buff;
                    rx_index = (ucast (wtohx env (vrt_hdr ! 1) - B100_RX_SID_BASE env) :: size_t);
                    s1 = s\<lparr>xport_calls := Suc (xport_calls s)\<rparr>
                in
                  if rx_index = index then Some (Inr (Some buff, s1))
                  else if unat rx_index < length (buffs_queue s1)
                  then get_recv_buff env index timeout
                         (s1\<lparr>buffs_queue := (buffs_queue s1)
                               [unat rx_index :=
                                  snd (push_with_pop_on_full (buffs_queue s1 ! unat rx_index) buff)]\<rparr>)
                  else get_recv_buff env index timeout
                         (s1\<lparr>msgs := msgs s1 @
                               [error [Str ''Got a data packet with known SID '',
                                       U32 (wtohx env (vrt_hdr ! 1))]]\<rparr>)))"

subsection \<open>b100\_impl::handle\_async\_message\<close>

definition uhd_msg_out :: "uhd_msg \<Rightarrow> b100_impl \<Rightarrow> b100_impl" where
  "uhd_msg_out m s = s\<lparr>io := (io s)\<lparr>msgs := msgs (io s) @ [m]\<rparr>\<rparr>"

text \<open>
  The local \<^verbatim>\<open>if_packet_info\<close> is declared without an initialiser: \<open>uninit\<close> stands
  for the contents it starts with. \<^verbatim>\<open>rbuf->size()/sizeof(boost::uint32_t)\<close> is the
  number of words of the buffer.
\<close>

definition handle_async_message ::
  "env \<Rightarrow> if_packet_info_t \<Rightarrow> managed_recv_buffer \<Rightarrow> b100_impl \<Rightarrow> b100_impl" where
  "handle_async_message env uninit rbuf s =
     (let vrt_hdr = rbuf;
          (thrown, if_packet_info) =
             if_hdr_unpack_le env vrt_hdr (uninit\<lparr>num_packet_words32 := of_nat (length rbuf)\<rparr>);
          s1 = (case thrown of
                  None \<Rightarrow> s
                | Some what \<Rightarrow>
                    uhd_msg_out (error [Str ''Error (handle_async_message): '', Str what]) s)
      in
        if sid if_packet_info = B100_TX_ASYNC_SID env
           \<and> packet_type if_packet_info \<noteq> PACKET_TYPE_DATA
        then
          let metadata =
                \<lparr>channel = 0,
                 has_time_spec = (has_tsi if_packet_info \<and> has_tsf if_packet_info),
                 time_spec = \<lparr>full_secs = tsi if_packet_info,
                              tick_count = tsf if_packet_info,
                              tick_rate = fpga_clock_rate s1\<rparr>,
                 event_code = get_context_code env vrt_hdr if_packet_info\<rparr>;
              s2 = s1\<lparr>io := (io s1)\<lparr>async_msg_fifo :=
                         snd (push_with_pop_on_full (async_msg_fifo (io s1)) metadata)\<rparr>\<rparr>
          in
            if event_code metadata
                 AND (EVENT_CODE_UNDERFLOW env OR EVENT_CODE_UNDERFLOW_IN_PACKET env) \<noteq> 0
            then uhd_msg_out (fastpath [Str ''U'']) s2
            else if event_code metadata
                 AND (EVENT_CODE_SEQ_ERROR env OR EVENT_CODE_SEQ_ERROR_IN_BURST env) \<noteq> 0
            then uhd_msg_out (fastpath [Str ''S'']) s2
            else s2
        else uhd_msg_out (error [Str ''Unknown async packet'']) s1)"

subsection \<open>b100\_impl::recv\_async\_msg\<close>

definition recv_async_msg :: "real \<Rightarrow> b100_impl \<Rightarrow> async_metadata_t option \<times> b100_impl" where
  "recv_async_msg timeout s =
     (case pop_with_timed_wait (async_msg_fifo (io s)) timeout of
        (r, q) \<Rightarrow> (r, s\<lparr>io := (io s)\<lparr>async_msg_fifo := q\<rparr>\<rparr>))"

subsection \<open>Maximum samples per packet\<close>

definition get_max_send_samps_per_packet :: "env \<Rightarrow> b100_impl \<Rightarrow> fault + size_t" where
  "get_max_send_samps_per_packet env s =
     (let hdr_size = 0 + max_if_hdr_words32 env * 4 - sizeof_cid env;
          bpp = 2048 - hdr_size
      in if get_sample_size env (tx_otw_type s) = 0 then Inl DivByZero
         else Inr (bpp div get_sample_size env (tx_otw_type s)))"

definition get_max_recv_samps_per_packet :: "env \<Rightarrow> b100_impl \<Rightarrow> fault + size_t" where
  "get_max_recv_samps_per_packet env s =
     (let hdr_size = 0 + max_if_hdr_words32 env * 4 + sizeof_tlr env - sizeof_cid env;
          bpp = 2048 - hdr_size
      in if get_sample_size env (rx_otw_type s) = 0 then Inl DivByZero
         else Inr (bpp div get_sample_size env (rx_otw_type s)))"

subsection \<open>b100\_impl::update\_rx\_subdev\_spec and update\_tx\_subdev\_spec\<close>

definition root :: "string list" where
  "root = [''mboards'', ''0'', ''dboards'']"

text \<open>\<^verbatim>\<open>_tree->access<std::string>(path).get()\<close> throws for a path the tree does not hold.\<close>

definition access :: "property_tree \<Rightarrow> string list \<Rightarrow> fault + string" where
  "access t path = (case t path of None \<Rightarrow> Inl (lookup_error (concat path)) | Some v \<Rightarrow> Inr v)"

text \<open>The first loop of \<^verbatim>\<open>update_rx_subdev_spec\<close>, over the indices it is given.\<close>

fun rx_setup_mux :: "subdev_spec_t \<Rightarrow> nat list \<Rightarrow> b100_impl \<Rightarrow> fault + b100_impl" where
  "rx_setup_mux spec [] s = Inr s"
| "rx_setup_mux spec (i # is) s =
     (if \<not> i < length spec then Inl OutOfRange
      else case access (tree s)
                  (root @ [db_name (spec ! i), ''rx_frontends'', sd_name (spec ! i), ''connection'']) of
        Inl e \<Rightarrow> Inl e
      | Inr conn \<Rightarrow>
          if \<not> i < length (rx_dsps s) then Inl OutOfRange
          else rx_setup_mux spec is
                 (s\<lparr>rx_dsps := (rx_dsps s)[i := (rx_dsps s ! i)\<lparr>rx_mux := conn\<rparr>]\<rparr>))"

text \<open>The second loop of \<^verbatim>\<open>update_rx_subdev_spec\<close>, binding the callbacks.\<close>

fun rx_bind_callbacks :: "env \<Rightarrow> nat list \<Rightarrow> b100_impl \<Rightarrow> fault + b100_impl" where
  "rx_bind_callbacks env [] s = Inr s"
| "rx_bind_callbacks env (i # is) s =
     (case get_max_recv_samps_per_packet env s of
        Inl e \<Rightarrow> Inl e
      | Inr n \<Rightarrow>
          if \<not> i < length (rx_dsps s) then Inl OutOfRange
          else rx_bind_callbacks env is
                 (s\<lparr>rx_dsps := (rx_dsps s)[i := (rx_dsps s ! i)\<lparr>nsamps_per_packet := n\<rparr>],
                    io := (io s)\<lparr>recv_handler := (recv_handler (io s))
                             [i := \<lparr>xport_chan_get_buff = Some (of_nat i),
                                    overflow_handler = Some i\<rparr>]\<rparr>\<rparr>))"

definition update_rx_subdev_spec :: "env \<Rightarrow> subdev_spec_t \<Rightarrow> b100_impl \<Rightarrow> fault + b100_impl" where
  "update_rx_subdev_spec env spec s =
     (case validate_subdev_spec env (tree s) spec ''rx'' of
        Some what \<Rightarrow> Inl (value_error what)
      | None \<Rightarrow>
         (case rx_setup_mux spec [0..<length spec] s of
            Inl e \<Rightarrow> Inl e
          | Inr s1 \<Rightarrow>
              let s2 = s1\<lparr>io := (io s1)\<lparr>recv_handler :=
                          resize \<lparr>xport_chan_get_buff = None, overflow_handler = None\<rparr>
                            (length spec) (recv_handler (io s1))\<rparr>\<rparr>
              in rx_bind_callbacks env [0..<length (recv_handler (io s2))] s2))"

definition update_tx_subdev_spec :: "env \<Rightarrow> subdev_spec_t \<Rightarrow> b100_impl \<Rightarrow> fault + b100_impl" where
  "update_tx_subdev_spec env spec s =
     (case validate_subdev_spec env (tree s) spec ''tx'' of
        Some what \<Rightarrow> Inl (value_error what)
      | None \<Rightarrow>
          if \<not> 0 < length spec then Inl OutOfRange
          else
           (case access (tree s)
                   (root @ [db_name (spec ! 0), ''tx_frontends'', sd_name (spec ! 0), ''connection'']) of
              Inl e \<Rightarrow> Inl e
            | Inr conn \<Rightarrow>
                let s1 = s\<lparr>tx_fe := (tx_fe s)\<lparr>tx_mux := conn\<rparr>\<rparr>;
                    s2 = s1\<lparr>io := (io s1)\<lparr>send_handler :=
                            resize \<lparr>xport_chan_get_send_buff = False\<rparr>
                              (length spec) (send_handler (io s1))\<rparr>\<rparr>
                in Inr (s2\<lparr>io := (io s2)\<lparr>send_handler :=
                            map (\<lambda>c. c\<lparr>xport_chan_get_send_buff := True\<rparr>)
                              (send_handler (io s2))\<rparr>\<rparr>)))"

subsection \<open>Sequences of queue operations\<close>

text \<open>Pushing the records of a list in order, and popping \<open>n\<close> times in a row.\<close>

fun pushes :: "'a bounded_buffer \<Rightarrow> 'a list \<Rightarrow> 'a bounded_buffer" where
  "pushes q [] = q"
| "pushes q (r # rs) = pushes (snd (push_with_pop_on_full q r)) rs"

fun pops :: "nat \<Rightarrow> real \<Rightarrow> 'a bounded_buffer \<Rightarrow> 'a option list \<times> 'a bounded_buffer" where
  "pops 0 timeout q = ([], q)"
| "pops (Suc n) timeout q =
     (case pop_with_timed_wait q timeout of
        (r, q1) \<Rightarrow> (case pops n timeout q1 of (rs, q2) \<Rightarrow> (r # rs, q2)))"

subsection \<open>Routing of received buffers\<close>

text \<open>The channel index that \<^verbatim>\<open>get_recv_buff\<close> computes for a buffer (line 77).\<close>

definition rx_index_of :: "env \<Rightarrow> managed_recv_buffer \<Rightarrow> size_t" where
  "rx_index_of env buff = ucast (wtohx env (buff ! 1) - B100_RX_SID_BASE env)"

text \<open>Every buffer waiting in the queue of channel \<open>k\<close> carries a stream id that maps to \<open>k\<close>.\<close>

definition routed :: "env \<Rightarrow> io_impl \<Rightarrow> bool" where
  "routed env s =
     list_all (\<lambda>(k, q). list_all (\<lambda>b. unat (rx_index_of env b) = k) (items q))
       (enumerate 0 (buffs_queue s))"

subsection \<open>A sample environment and sample transports\<close>

text \<open>
  The theorems below hold for every \<open>env\<close>. To run the functions on concrete inputs,
  \<open>sample_env\<close> makes one choice for the declarations kept elsewhere: receive stream ids
  start at 2, the asynchronous stream id is 1, the host is little-endian (\<open>wtohx\<close> changes
  nothing), a header has at most 7 words, the class id takes 8 bytes and the trailer 4,
  and a sample takes twice its width in bits.
\<close>

text \<open>Modelled from the spec: \<^verbatim>\<open>vrt::if_hdr_unpack_le\<close>, the decode of section 4.1, which
  fails when the buffer is shorter than the minimum header (here the header word and the
  stream id word) and then leaves the info untouched. For a buffer that is long enough
  the sample reads the stream id from word 1, where \<^verbatim>\<open>get_recv_buff\<close> reads it too,
  and takes the packet type and the two time stamp flags from the header word as the
  VITA 49 layout has them; the spec leaves the layout open.\<close>

definition vrt_unpack_sample ::
  "uint32_t list \<Rightarrow> if_packet_info_t \<Rightarrow> string option \<times> if_packet_info_t" where
  "vrt_unpack_sample vrt_hdr info =
     (if length vrt_hdr < 2 \<or> num_packet_words32 info < 2
      then (Some ''bad vrt header or packet fragment'', info)
      else (None, info\<lparr>packet_type :=
                           (if drop_bit 29 (vrt_hdr ! 0) = 0 then PACKET_TYPE_DATA
                            else PACKET_TYPE_CONTEXT),
                        num_header_words32 := 2,
                        has_sid := True,
                        sid := vrt_hdr ! 1,
                        has_tsi := (vrt_hdr ! 0 AND 0xC00000 \<noteq> 0),
                        has_tsf := (vrt_hdr ! 0 AND 0x300000 \<noteq> 0)\<rparr>))"

text \<open>Modelled from the spec: \<^verbatim>\<open>validate_subdev_spec\<close>, step 2 of section 4.7: it fails
  if a referenced sub-device or connection does not exist in the tree.\<close>

definition validate_subdev_spec_model :: "property_tree \<Rightarrow> subdev_spec_t \<Rightarrow> string \<Rightarrow> string option" where
  "validate_subdev_spec_model t spec dir =
     (if list_all (\<lambda>p. t (root @ [db_name p, dir @ ''_frontends'', sd_name p, ''connection'']) \<noteq> None) spec
      then None
      else Some ''invalid subdev spec'')"

definition sample_env :: env where
  "sample_env =
     \<lparr>B100_RX_SID_BASE = 2,
      B100_TX_ASYNC_SID = 1,
      wtohx = (\<lambda>w. w),
      if_hdr_unpack_le = vrt_unpack_sample,
      get_context_code = (\<lambda>vrt_hdr info. (if 2 < length vrt_hdr then vrt_hdr ! 2 AND 0xff else 0)),
      EVENT_CODE_UNDERFLOW = 2,
      EVENT_CODE_UNDERFLOW_IN_PACKET = 16,
      EVENT_CODE_SEQ_ERROR = 4,
      EVENT_CODE_SEQ_ERROR_IN_BURST = 32,
      max_if_hdr_words32 = 7,
      sizeof_cid = 8,
      sizeof_tlr = 4,
      get_sample_size = (\<lambda>otw. (width otw * 2) div 8),
      validate_subdev_spec = validate_subdev_spec_model\<rparr>"

text \<open>A transport that hands out buffers of channel 1 without end, and one that hands
  out a buffer of channel 1, then one of channel 0, then times out.\<close>

definition other_channel_forever :: "nat \<Rightarrow> real \<Rightarrow> managed_recv_buffer option" where
  "other_channel_forever n timeout = Some [0, 3]"

definition two_then_timeout :: "nat \<Rightarrow> real \<Rightarrow> managed_recv_buffer option" where
  "two_then_timeout n timeout = (if n = 0 then Some [0, 3] else if n = 1 then Some [0, 2] else None)"

text \<open>A transport that hands out one buffer whose stream id 1 lies below the receive
  base, then times out.\<close>

definition unroutable_then_timeout :: "nat \<Rightarrow> real \<Rightarrow> managed_recv_buffer option" where
  "unroutable_then_timeout n timeout = (if n = 0 then Some [0, 1] else None)"

text \<open>A device with one daughterboard \<open>A\<close> whose receive and transmit front-ends \<open>A\<close>
  and \<open>B\<close> have the connections \<open>IQ\<close> and \<open>QI\<close>, two receive DSPs, 16-bit samples
  in both directions and a clock of 64 MHz.\<close>

definition sample_tree :: property_tree where
  "sample_tree = map_of
     [(root @ [''A'', ''rx_frontends'', ''A'', ''connection''], ''IQ''),
      (root @ [''A'', ''rx_frontends'', ''B'', ''connection''], ''QI''),
      (root @ [''A'', ''tx_frontends'', ''A'', ''connection''], ''IQ''),
      (root @ [''A'', ''tx_frontends'', ''B'', ''connection''], ''QI'')]"

definition sample_b100 :: b100_impl where
  "sample_b100 =
     \<lparr>tree = sample_tree,
      rx_dsps = [\<lparr>rx_mux = [], nsamps_per_packet = 0\<rparr>, \<lparr>rx_mux = [], nsamps_per_packet = 0\<rparr>],
      tx_fe = \<lparr>tx_mux = []\<rparr>,
      fpga_clock_rate = 64000000,
      rx_otw_type = \<lparr>width = 16, shift = 0, byteorder = BO_LITTLE_ENDIAN\<rparr>,
      tx_otw_type = \<lparr>width = 16, shift = 0, byteorder = BO_LITTLE_ENDIAN\<rparr>,
      io = io_impl_new two_then_timeout 16 2\<rparr>"

text \<open>Contents that the memory of the local \<^verbatim>\<open>if_packet_info\<close> of
  \<^verbatim>\<open>handle_async_message\<close> can hold on entry, such as an earlier call leaves behind
  after an asynchronous packet with stream id 1.\<close>

definition stale_if_packet_info :: if_packet_info_t where
  "stale_if_packet_info =
     \<lparr>packet_type = PACKET_TYPE_CONTEXT,
      num_payload_words32 = 1,
      num_header_words32 = 2,
      num_packet_words32 = 3,
      packet_count = 0,
      sob = False,
      eob = False,
      has_sid = True,
      sid = 1,
      has_cid = False,
      cid = 0,
      has_tsi = False,
      tsi = 0,
      has_tsf = False,
      tsf = 0,
      has_tlr = False,
      tlr = 0\<rparr>"

subsection \<open>Paths of the front-end connections\<close>

text \<open>The paths that \<^verbatim>\<open>update_rx_subdev_spec\<close> (line 185) and
  \<^verbatim>\<open>update_tx_subdev_spec\<close> (line 210) look up for an entry of the spec.\<close>

definition rx_connection_path :: "subdev_spec_pair_t \<Rightarrow> string list" where
  "rx_connection_path p = root @ [db_name p, ''rx_frontends'', sd_name p, ''connection'']"

definition tx_connection_path :: "subdev_spec_pair_t \<Rightarrow> string list" where
  "tx_connection_path p = root @ [db_name p, ''tx_frontends'', sd_name p, ''connection'']"

section \<open>Properties\<close>

subsection \<open>The bounded queue\<close>

lemma capacity_push [simp]: "capacity (snd (push_with_pop_on_full q r)) = capacity q"
  by (simp add: push_with_pop_on_full_def)

lemma capacity_pushes [simp]: "capacity (pushes q rs) = capacity q"
  by (induction rs arbitrary: q) simp_all

lemma pushes_append: "pushes q (xs @ ys) = pushes (pushes q xs) ys"
  by (induction xs arbitrary: q) simp_all

lemma length_push_le:
  "0 < capacity q \<Longrightarrow> length (items q) \<le> capacity q \<Longrightarrow>
   length (items (snd (push_with_pop_on_full q r))) \<le> capacity q"
  by (cases "items q") (auto simp: push_with_pop_on_full_def)

lemma last_push: "last (items (snd (push_with_pop_on_full q r))) = r"
  by (simp add: push_with_pop_on_full_def)

text \<open>A queue within its capacity holds, after any pushes, the most recent elements.\<close>

lemma items_pushes:
  "0 < capacity q \<Longrightarrow> length (items q) \<le> capacity q \<Longrightarrow>
   items (pushes q rs) = drop (length (items q @ rs) - capacity q) (items q @ rs)"
proof (induction rs arbitrary: q)
  case Nil
  then show ?case by simp
next
  case (Cons r rs)
  let ?q = "snd (push_with_pop_on_full q r)"
  have cap: "capacity ?q = capacity q" by simp
  have len: "length (items ?q) \<le> capacity ?q"
    using Cons.prems by (simp add: length_push_le)
  have ih: "items (pushes ?q rs) = drop (length (items ?q @ rs) - capacity q) (items ?q @ rs)"
    using Cons.IH [of ?q] Cons.prems len cap by simp
  show ?case
  proof (cases "capacity q \<le> length (items q)")
    case True
    with Cons.prems have eq: "length (items q) = capacity q" by simp
    with Cons.prems obtain a as where as: "items q = a # as" by (cases "items q") auto
    have q': "items ?q = as @ [r]" using True as by (simp add: push_with_pop_on_full_def)
    have c: "capacity q = Suc (length as)" using eq as by simp
    show ?thesis unfolding pushes.simps ih q' as c by simp
  next
    case False
    then have "items ?q = items q @ [r]" by (simp add: push_with_pop_on_full_def)
    with ih show ?thesis by simp
  qed
qed

lemma pops_items:
  "n \<le> length (items q) \<Longrightarrow>
   pops n t q = (map Some (take n (items q)), q\<lparr>items := drop n (items q)\<rparr>)"
proof (induction n arbitrary: q)
  case 0
  then show ?case by simp
next
  case (Suc n)
  then obtain a as where as: "items q = a # as" by (cases "items q") auto
  with Suc.prems have "n \<le> length (items (q\<lparr>items := as\<rparr>))" by simp
  from Suc.IH [OF this] as show ?case
    by (simp add: pop_with_timed_wait_def pop_with_haste_def)
qed

text \<open>
  C4. The asynchronous event queue built by the constructor of \<open>io_impl\<close> has capacity
  100. A push always succeeds and leaves the pushed record as the newest one. Whatever
  was pushed before (\<open>pre\<close>), pushing 101 records \<open>rs\<close> and then popping 100 times
  yields the last 100 of them, oldest first, and leaves the queue empty: the oldest of
  the 101 was evicted.
\<close>

theorem async_msg_fifo_keeps_most_recent:
  assumes "length rs = 101"
  shows "capacity (async_msg_fifo (io_impl_new xport nf w)) = 100
    \<and> last (items (snd (push_with_pop_on_full (async_msg_fifo (io_impl_new xport nf w)) r))) = r
    \<and> pops 100 t (pushes (async_msg_fifo (io_impl_new xport nf w)) (pre @ rs))
         = (map Some (drop 1 rs), bounded_buffer_new 100)"
proof -
  let ?q = "bounded_buffer_new 100 :: async_metadata_t bounded_buffer"
  have q: "async_msg_fifo (io_impl_new xport nf w) = ?q"
    by (simp add: io_impl_new_def)
  have it: "items (pushes ?q (pre @ rs)) = drop 1 rs"
    using items_pushes [of ?q "pre @ rs"] assms by (simp add: bounded_buffer_new_def)
  have "pops 100 t (pushes ?q (pre @ rs))
          = (map Some (take 100 (items (pushes ?q (pre @ rs)))),
             (pushes ?q (pre @ rs))\<lparr>items := drop 100 (items (pushes ?q (pre @ rs)))\<rparr>)"
    by (rule pops_items) (simp add: it assms)
  moreover have "(pushes ?q (pre @ rs))\<lparr>items := []\<rparr> = ?q"
    by (rule bounded_buffer.equality) (simp_all add: bounded_buffer_new_def)
  ultimately have "pops 100 t (pushes ?q (pre @ rs)) = (map Some (drop 1 rs), ?q)"
    using assms by (simp add: it)
  then show ?thesis
    unfolding q by (simp add: last_push) (simp add: bounded_buffer_new_def)
qed

theorem async_msg_fifo_keeps_most_recent_witness:
  "length (map (\<lambda>i. \<lparr>channel = 0, has_time_spec = False,
                        time_spec = \<lparr>full_secs = 0, tick_count = 0, tick_rate = 64000000\<rparr>,
                        event_code = of_nat i\<rparr>) [0..<101]) = 101
   \<and> capacity (async_msg_fifo (io_impl_new (\<lambda>n t. None) 16 1)) = 100
   \<and> pops 100 1 (pushes (async_msg_fifo (io_impl_new (\<lambda>n t. None) 16 1))
        (map (\<lambda>i. \<lparr>channel = 0, has_time_spec = False,
                        time_spec = \<lparr>full_secs = 0, tick_count = 0, tick_rate = 64000000\<rparr>,
                        event_code = of_nat i\<rparr>) [0..<101]))
      = (map Some (map (\<lambda>i. \<lparr>channel = 0, has_time_spec = False,
                        time_spec = \<lparr>full_secs = 0, tick_count = 0, tick_rate = 64000000\<rparr>,
                        event_code = of_nat i\<rparr>) [1..<101]), bounded_buffer_new 100)"
proof -
  let ?ev = "\<lambda>i. \<lparr>channel = 0, has_time_spec = False,
                        time_spec = \<lparr>full_secs = 0, tick_count = 0, tick_rate = 64000000\<rparr>,
                        event_code = of_nat i\<rparr>"
  have len: "length (map ?ev [0..<101]) = 101" by simp
  have d: "drop 1 (map ?ev [0..<101]) = map ?ev [1..<101]"
    by (simp only: drop_map drop_upt) simp
  from async_msg_fifo_keeps_most_recent [OF len, of "\<lambda>n t. None" 16 1 "?ev 0" 1 "[]"]
  show ?thesis unfolding d using len by (simp only: append_Nil simp_thms)
qed

subsection \<open>The receive demultiplexer\<close>

lemma routed_iff:
  "routed env s \<longleftrightarrow>
     (\<forall>k<length (buffs_queue s). \<forall>b\<in>set (items (buffs_queue s ! k)). unat (rx_index_of env b) = k)"
proof
  assume r: "routed env s"
  show "\<forall>k<length (buffs_queue s). \<forall>b\<in>set (items (buffs_queue s ! k)). unat (rx_index_of env b) = k"
  proof (intro allI impI ballI)
    fix k b
    assume k: "k < length (buffs_queue s)" and b: "b \<in> set (items (buffs_queue s ! k))"
    from k have "(k, buffs_queue s ! k) \<in> set (enumerate 0 (buffs_queue s))"
      by (simp add: in_set_enumerate_eq)
    with r b show "unat (rx_index_of env b) = k"
      by (auto simp: routed_def list_all_iff)
  qed
next
  assume "\<forall>k<length (buffs_queue s). \<forall>b\<in>set (items (buffs_queue s ! k)). unat (rx_index_of env b) = k"
  then show "routed env s"
    by (auto simp: routed_def list_all_iff in_set_enumerate_eq)
qed

lemma get_recv_buff_pop:
  assumes "unat index < length (buffs_queue s)"
    and "items (buffs_queue s ! unat index) = b # bs"
  shows "get_recv_buff env index t s =
           Some (Inr (Some b, s\<lparr>buffs_queue :=
                        (buffs_queue s)[unat index := (buffs_queue s ! unat index)\<lparr>items := bs\<rparr>]\<rparr>))"
  using assms by (subst get_recv_buff.simps) (simp add: pop_with_haste_def)

lemma get_recv_buff_timeout:
  assumes "unat index < length (buffs_queue s)"
    and "items (buffs_queue s ! unat index) = []"
    and "data_transport s (xport_calls s) t = None"
  shows "get_recv_buff env index t s = Some (Inr (None, s\<lparr>xport_calls := Suc (xport_calls s)\<rparr>))"
  using assms by (subst get_recv_buff.simps) (simp add: pop_with_haste_def)

lemma get_recv_buff_match:
  assumes "unat index < length (buffs_queue s)"
    and "items (buffs_queue s ! unat index) = []"
    and "data_transport s (xport_calls s) t = Some buff"
    and "1 < length buff"
    and "rx_index_of env buff = index"
  shows "get_recv_buff env index t s = Some (Inr (Some buff, s\<lparr>xport_calls := Suc (xport_calls s)\<rparr>))"
  using assms by (subst get_recv_buff.simps) (simp add: pop_with_haste_def rx_index_of_def Let_def)

lemma get_recv_buff_requeue:
  assumes "unat index < length (buffs_queue s)"
    and "items (buffs_queue s ! unat index) = []"
    and "data_transport s (xport_calls s) t = Some buff"
    and "1 < length buff"
    and "rx_index_of env buff \<noteq> index"
    and "unat (rx_index_of env buff) < length (buffs_queue s)"
  shows "get_recv_buff env index t s =
         get_recv_buff env index t
           (s\<lparr>xport_calls := Suc (xport_calls s),
              buffs_queue := (buffs_queue s)
                [unat (rx_index_of env buff) :=
                   snd (push_with_pop_on_full (buffs_queue s ! unat (rx_index_of env buff)) buff)]\<rparr>)"
  using assms by (subst get_recv_buff.simps) (simp add: pop_with_haste_def rx_index_of_def Let_def)

lemma get_recv_buff_discard:
  assumes "unat index < length (buffs_queue s)"
    and "items (buffs_queue s ! unat index) = []"
    and "data_transport s (xport_calls s) t = Some buff"
    and "1 < length buff"
    and "\<not> unat (rx_index_of env buff) < length (buffs_queue s)"
  shows "get_recv_buff env index t s =
         get_recv_buff env index t
           (s\<lparr>xport_calls := Suc (xport_calls s),
              msgs := msgs s @ [error [Str ''Got a data packet with known SID '',
                                       U32 (wtohx env (buff ! 1))]]\<rparr>)"
proof -
  from assms(1,5) have "rx_index_of env buff \<noteq> index" by auto
  with assms show ?thesis
    by (subst get_recv_buff.simps) (simp add: pop_with_haste_def rx_index_of_def Let_def)
qed


lemma set_items_push:
  "set (items (snd (push_with_pop_on_full q b))) \<subseteq> insert b (set (items q))"
  by (cases "items q") (auto simp: push_with_pop_on_full_def)

lemma routed_requeue:
  assumes "routed env s" and "unat (rx_index_of env buff) < length (buffs_queue s)"
  shows "routed env
           (s\<lparr>xport_calls := n,
              buffs_queue := (buffs_queue s)
                [unat (rx_index_of env buff) :=
                   snd (push_with_pop_on_full (buffs_queue s ! unat (rx_index_of env buff)) buff)]\<rparr>)"
  unfolding routed_iff
proof (intro allI impI ballI)
  fix k b
  let ?j = "unat (rx_index_of env buff)"
  let ?s = "s\<lparr>xport_calls := n,
              buffs_queue := (buffs_queue s)
                [?j := snd (push_with_pop_on_full (buffs_queue s ! ?j) buff)]\<rparr>"
  assume k: "k < length (buffs_queue ?s)" and b: "b \<in> set (items (buffs_queue ?s ! k))"
  show "unat (rx_index_of env b) = k"
  proof (cases "k = ?j")
    case True
    with b assms(2) have "b \<in> insert buff (set (items (buffs_queue s ! ?j)))"
      using set_items_push [of "buffs_queue s ! ?j" buff] by auto
    with assms True show ?thesis by (auto simp: routed_iff)
  next
    case False
    with b k have "b \<in> set (items (buffs_queue s ! k))" "k < length (buffs_queue s)" by simp_all
    with assms(1) show ?thesis by (auto simp: routed_iff)
  qed
qed

lemma routed_pop:
  assumes "routed env s" and "unat index < length (buffs_queue s)"
    and "items (buffs_queue s ! unat index) = b # bs"
  shows "routed env (s\<lparr>buffs_queue :=
            (buffs_queue s)[unat index := (buffs_queue s ! unat index)\<lparr>items := bs\<rparr>]\<rparr>)"
  unfolding routed_iff
proof (intro allI impI ballI)
  fix k c
  let ?s = "s\<lparr>buffs_queue :=
            (buffs_queue s)[unat index := (buffs_queue s ! unat index)\<lparr>items := bs\<rparr>]\<rparr>"
  assume k: "k < length (buffs_queue ?s)" and c: "c \<in> set (items (buffs_queue ?s ! k))"
  then have "c \<in> set (items (buffs_queue s ! k))"
    using assms(3) by (cases "k = unat index") auto
  with k assms(1) show "unat (rx_index_of env c) = k" by (auto simp: routed_iff)
qed

lemma routed_xport_calls [simp]: "routed env (s\<lparr>xport_calls := n\<rparr>) = routed env s"
  by (simp add: routed_def)

lemma routed_msgs [simp]: "routed env (s\<lparr>msgs := m\<rparr>) = routed env s"
  by (simp add: routed_def)

lemmas get_recv_buff_induct = get_recv_buff.raw_induct [rotated -1, consumes 1, case_names iter]

lemma get_recv_buff_routed:
  "get_recv_buff env index t s = Some r \<Longrightarrow> routed env s \<Longrightarrow> r = Inr (Some b, s')
   \<Longrightarrow> rx_index_of env b = index \<and> routed env s'"
proof (induction arbitrary: b s' rule: get_recv_buff_induct)
  case (iter f env index t s r)
  note body = iter.hyps and inv = iter.prems(1) and res = iter.prems(2)
  from body res have idx: "unat index < length (buffs_queue s)"
    by (cases "unat index < length (buffs_queue s)") simp_all
  show ?case
  proof (cases "items (buffs_queue s ! unat index)")
    case (Cons c cs)
    with body idx have "r = Inr (Some c, s\<lparr>buffs_queue :=
            (buffs_queue s)[unat index := (buffs_queue s ! unat index)\<lparr>items := cs\<rparr>]\<rparr>)"
      by (simp add: pop_with_haste_def)
    with res have "b = c"
      and s': "s' = s\<lparr>buffs_queue :=
            (buffs_queue s)[unat index := (buffs_queue s ! unat index)\<lparr>items := cs\<rparr>]\<rparr>"
      by simp_all
    moreover from inv idx Cons have "unat (rx_index_of env c) = unat index"
      by (simp add: routed_iff)
    moreover have "routed env s'" unfolding s' by (rule routed_pop [OF inv idx Cons])
    ultimately show ?thesis by (simp add: word_unat_eq_iff)
  next
    case Nil
    show ?thesis
    proof (cases "data_transport s (xport_calls s) t")
      case None
      with body idx Nil have "r = Inr (None, s\<lparr>xport_calls := Suc (xport_calls s)\<rparr>)"
        by (simp add: pop_with_haste_def)
      with res show ?thesis by simp
    next
      case (Some buff)
      from body res idx Nil Some have len: "1 < length buff"
        by (cases "1 < length buff") (simp_all add: pop_with_haste_def)
      consider (match) "rx_index_of env buff = index"
        | (requeue) "rx_index_of env buff \<noteq> index" "unat (rx_index_of env buff) < length (buffs_queue s)"
        | (discard) "rx_index_of env buff \<noteq> index" "\<not> unat (rx_index_of env buff) < length (buffs_queue s)"
        by blast
      then show ?thesis
      proof cases
        case match
        with body Nil Some idx len have "r = Inr (Some buff, s\<lparr>xport_calls := Suc (xport_calls s)\<rparr>)"
          by (simp add: pop_with_haste_def rx_index_of_def Let_def)
        with res have "b = buff" "s' = s\<lparr>xport_calls := Suc (xport_calls s)\<rparr>" by simp_all
        with match inv show ?thesis by simp
      next
        case requeue
        let ?s = "s\<lparr>xport_calls := Suc (xport_calls s),
              buffs_queue := (buffs_queue s)
                [unat (rx_index_of env buff) :=
                   snd (push_with_pop_on_full (buffs_queue s ! unat (rx_index_of env buff)) buff)]\<rparr>"
        from body Nil Some idx len requeue have "f env index t ?s = Some r"
          by (simp add: pop_with_haste_def rx_index_of_def Let_def)
        moreover have "routed env ?s" by (rule routed_requeue [OF inv requeue(2)])
        ultimately show ?thesis using res by (rule iter.IH)
      next
        case discard
        let ?s = "s\<lparr>xport_calls := Suc (xport_calls s),
              msgs := msgs s @ [error [Str ''Got a data packet with known SID '',
                                       U32 (wtohx env (buff ! 1))]]\<rparr>"
        from body Nil Some idx len discard have "f env index t ?s = Some r"
          by (simp add: pop_with_haste_def rx_index_of_def Let_def)
        moreover have "routed env ?s" using inv by simp
        ultimately show ?thesis using res by (rule iter.IH)
      qed
    qed
  qed
qed


lemma get_recv_buff_mismatch:
  assumes idx: "unat index < length (buffs_queue s)"
    and emp: "items (buffs_queue s ! unat index) = []"
    and fr: "data_transport s (xport_calls s) t = Some buff"
    and len: "1 < length buff"
    and ne: "rx_index_of env buff \<noteq> index"
  shows "\<exists>s1. get_recv_buff env index t s = get_recv_buff env index t s1
           \<and> xport_calls s1 = Suc (xport_calls s)
           \<and> data_transport s1 = data_transport s
           \<and> length (buffs_queue s1) = length (buffs_queue s)
           \<and> items (buffs_queue s1 ! unat index) = []"
proof (cases "unat (rx_index_of env buff) < length (buffs_queue s)")
  case True
  let ?s1 = "s\<lparr>xport_calls := Suc (xport_calls s),
              buffs_queue := (buffs_queue s)
                [unat (rx_index_of env buff) :=
                   snd (push_with_pop_on_full (buffs_queue s ! unat (rx_index_of env buff)) buff)]\<rparr>"
  from ne have "unat (rx_index_of env buff) \<noteq> unat index"
    by (simp add: word_unat_eq_iff)
  with emp have "items (buffs_queue ?s1 ! unat index) = []" by simp
  moreover have "get_recv_buff env index t s = get_recv_buff env index t ?s1"
    by (rule get_recv_buff_requeue [OF idx emp fr len ne True])
  ultimately show ?thesis by (intro exI [of _ ?s1]) simp
next
  case False
  let ?s1 = "s\<lparr>xport_calls := Suc (xport_calls s),
              msgs := msgs s @ [error [Str ''Got a data packet with known SID '',
                                       U32 (wtohx env (buff ! 1))]]\<rparr>"
  from emp have "items (buffs_queue ?s1 ! unat index) = []" by simp
  moreover have "get_recv_buff env index t s = get_recv_buff env index t ?s1"
    by (rule get_recv_buff_discard [OF idx emp fr len False])
  ultimately show ?thesis by (intro exI [of _ ?s1]) simp
qed

lemma get_recv_buff_returns:
  assumes "unat index < length (buffs_queue s)"
    and "items (buffs_queue s ! unat index) = []"
    and "\<forall>m<k. \<exists>b. data_transport s (xport_calls s + m) t = Some b
                    \<and> 1 < length b \<and> rx_index_of env b \<noteq> index"
    and "data_transport s (xport_calls s + k) t = None
         \<or> (\<exists>b. data_transport s (xport_calls s + k) t = Some b
                  \<and> 1 < length b \<and> rx_index_of env b = index)"
  shows "\<exists>s'. get_recv_buff env index t s
                 = Some (Inr (data_transport s (xport_calls s + k) t, s'))
              \<and> xport_calls s' = xport_calls s + k + 1"
  using assms
proof (induction k arbitrary: s)
  case 0
  from "0.prems"(4) show ?case
  proof
    assume "data_transport s (xport_calls s + 0) t = None"
    then show ?thesis
      using get_recv_buff_timeout [OF "0.prems"(1,2), of t env] by simp
  next
    assume "\<exists>b. data_transport s (xport_calls s + 0) t = Some b
                  \<and> 1 < length b \<and> rx_index_of env b = index"
    then obtain b where "data_transport s (xport_calls s) t = Some b" "1 < length b"
        "rx_index_of env b = index" by auto
    then show ?thesis
      using get_recv_buff_match [OF "0.prems"(1,2), of t b env] by simp
  qed
next
  case (Suc k)
  from Suc.prems(3) obtain b where b: "data_transport s (xport_calls s) t = Some b"
      "1 < length b" "rx_index_of env b \<noteq> index"
    by (auto dest: spec [of _ 0])
  from get_recv_buff_mismatch [OF Suc.prems(1,2) b]
  obtain s1 where s1: "get_recv_buff env index t s = get_recv_buff env index t s1"
      "xport_calls s1 = Suc (xport_calls s)" "data_transport s1 = data_transport s"
      "length (buffs_queue s1) = length (buffs_queue s)"
      "items (buffs_queue s1 ! unat index) = []"
    by blast
  have p1: "unat index < length (buffs_queue s1)" using Suc.prems(1) s1 by simp
  have p3: "\<forall>m<k. \<exists>b. data_transport s1 (xport_calls s1 + m) t = Some b
                    \<and> 1 < length b \<and> rx_index_of env b \<noteq> index"
  proof (intro allI impI)
    fix m assume "m < k"
    then have "Suc m < Suc k" by simp
    with Suc.prems(3) show "\<exists>b. data_transport s1 (xport_calls s1 + m) t = Some b
                    \<and> 1 < length b \<and> rx_index_of env b \<noteq> index"
      unfolding s1 by (auto dest!: spec [of _ "Suc m"])
  qed
  have p4: "data_transport s1 (xport_calls s1 + k) t = None
         \<or> (\<exists>b. data_transport s1 (xport_calls s1 + k) t = Some b
                  \<and> 1 < length b \<and> rx_index_of env b = index)"
    using Suc.prems(4) unfolding s1 by simp
  from Suc.IH [OF p1 s1(5) p3 p4] show ?case
    unfolding s1 by simp
qed

lemma get_recv_buff_spins:
  "get_recv_buff env index t s = Some r \<Longrightarrow> unat index < length (buffs_queue s)
   \<Longrightarrow> items (buffs_queue s ! unat index) = []
   \<Longrightarrow> (\<forall>n. \<exists>b. data_transport s n t = Some b \<and> 1 < length b \<and> rx_index_of env b \<noteq> index)
   \<Longrightarrow> False"
proof (induction rule: get_recv_buff_induct)
  case (iter f env index t s r)
  note body = iter.hyps and idx = iter.prems(1) and emp = iter.prems(2) and all = iter.prems(3)
  from all obtain b where b: "data_transport s (xport_calls s) t = Some b" "1 < length b"
      "rx_index_of env b \<noteq> index" by blast
  from b(3) have ne: "unat (rx_index_of env b) \<noteq> unat index"
    by (simp add: word_unat_eq_iff)
  show ?case
  proof (cases "unat (rx_index_of env b) < length (buffs_queue s)")
    case True
    let ?s = "s\<lparr>xport_calls := Suc (xport_calls s),
              buffs_queue := (buffs_queue s)
                [unat (rx_index_of env b) :=
                   snd (push_with_pop_on_full (buffs_queue s ! unat (rx_index_of env b)) b)]\<rparr>"
    from body idx emp b True have "f env index t ?s = Some r"
      by (simp add: pop_with_haste_def rx_index_of_def Let_def)
    moreover have "unat index < length (buffs_queue ?s)" using idx by simp
    moreover have "items (buffs_queue ?s ! unat index) = []" using emp ne by simp
    moreover have "\<forall>n. \<exists>b. data_transport ?s n t = Some b \<and> 1 < length b \<and> rx_index_of env b \<noteq> index"
      using all by simp
    ultimately show False by (rule iter.IH)
  next
    case False
    let ?s = "s\<lparr>xport_calls := Suc (xport_calls s),
              msgs := msgs s @ [error [Str ''Got a data packet with known SID '',
                                       U32 (wtohx env (b ! 1))]]\<rparr>"
    from body idx emp b False have "f env index t ?s = Some r"
      by (simp add: pop_with_haste_def rx_index_of_def Let_def)
    moreover have "unat index < length (buffs_queue ?s)" using idx by simp
    moreover have "items (buffs_queue ?s ! unat index) = []" using emp by simp
    moreover have "\<forall>n. \<exists>b. data_transport ?s n t = Some b \<and> 1 < length b \<and> rx_index_of env b \<noteq> index"
      using all by simp
    ultimately show False by (rule iter.IH)
  qed
qed

lemma get_recv_buff_no_fault:
  "get_recv_buff env index t s = Some r \<Longrightarrow> unat index < length (buffs_queue s)
   \<Longrightarrow> (\<forall>n b. data_transport s n t = Some b \<longrightarrow> 1 < length b)
   \<Longrightarrow> \<exists>b s'. r = Inr (b, s') \<and> length (buffs_queue s') = length (buffs_queue s)"
proof (induction rule: get_recv_buff_induct)
  case (iter f env index t s r)
  note body = iter.hyps and idx = iter.prems(1) and all = iter.prems(2)
  show ?case
  proof (cases "items (buffs_queue s ! unat index)")
    case (Cons c cs)
    with body idx show ?thesis by (auto simp: pop_with_haste_def)
  next
    case Nil
    show ?thesis
    proof (cases "data_transport s (xport_calls s) t")
      case None
      with body idx Nil show ?thesis by (auto simp: pop_with_haste_def)
    next
      case (Some buff)
      with all have len: "1 < length buff" by blast
      consider (match) "rx_index_of env buff = index"
        | (requeue) "rx_index_of env buff \<noteq> index" "unat (rx_index_of env buff) < length (buffs_queue s)"
        | (discard) "rx_index_of env buff \<noteq> index" "\<not> unat (rx_index_of env buff) < length (buffs_queue s)"
        by blast
      then show ?thesis
      proof cases
        case match
        with body Nil Some idx len show ?thesis
          by (auto simp: pop_with_haste_def rx_index_of_def Let_def)
      next
        case requeue
        let ?s = "s\<lparr>xport_calls := Suc (xport_calls s),
              buffs_queue := (buffs_queue s)
                [unat (rx_index_of env buff) :=
                   snd (push_with_pop_on_full (buffs_queue s ! unat (rx_index_of env buff)) buff)]\<rparr>"
        from body Nil Some idx len requeue have "f env index t ?s = Some r"
          by (simp add: pop_with_haste_def rx_index_of_def Let_def)
        moreover have "unat index < length (buffs_queue ?s)" using idx by simp
        moreover have "\<forall>n b. data_transport ?s n t = Some b \<longrightarrow> 1 < length b" using all by simp
        ultimately have "\<exists>b s'. r = Inr (b, s') \<and> length (buffs_queue s') = length (buffs_queue ?s)"
          by (rule iter.IH)
        then show ?thesis by simp
      next
        case discard
        let ?s = "s\<lparr>xport_calls := Suc (xport_calls s),
              msgs := msgs s @ [error [Str ''Got a data packet with known SID '',
                                       U32 (wtohx env (buff ! 1))]]\<rparr>"
        from body Nil Some idx len discard have "f env index t ?s = Some r"
          by (simp add: pop_with_haste_def rx_index_of_def Let_def)
        moreover have "unat index < length (buffs_queue ?s)" using idx by simp
        moreover have "\<forall>n b. data_transport ?s n t = Some b \<longrightarrow> 1 < length b" using all by simp
        ultimately have "\<exists>b s'. r = Inr (b, s') \<and> length (buffs_queue s') = length (buffs_queue ?s)"
          by (rule iter.IH)
        then show ?thesis by simp
      qed
    qed
  qed
qed

text \<open>Evaluation in the sample environment, and the wrap-around of the index.\<close>

lemma rx3: "rx_index_of sample_env [0, 3] = 1"
  by (simp add: rx_index_of_def sample_env_def)

lemma rx2: "rx_index_of sample_env [0, 2] = 0"
  by (simp add: rx_index_of_def sample_env_def)


lemma q: "buffs_queue (io_impl_new x 16 2) = [bounded_buffer_new 16, bounded_buffer_new 16]"
  by (simp add: io_impl_new_def) (simp add: numeral_2_eq_2)

lemma unat_ucast_32_64: "unat (ucast (w :: uint32_t) :: size_t) = unat w"
proof -
  have "unat w < 2 ^ 32" using unsigned_less [of w, where ?'a = nat] by simp
  then have "unat w < 2 ^ 64" by simp
  then have "take_bit 64 (unat w) = unat w" by (simp add: take_bit_nat_eq_self)
  then show ?thesis by (simp add: unsigned_ucast_eq)
qed

lemma rx_index_wrap:
  assumes "(a :: uint32_t) < b"
  shows "unat (ucast (a - b) :: size_t) = 2 ^ 32 + unat a - unat b"
  using assms by (simp add: unat_ucast_32_64 unat_sub_if_size word_less_nat_alt word_size)

lemma rx1: "unat (rx_index_of sample_env [0, 1]) = 4294967295"
  using rx_index_wrap [of 1 2] by (simp add: rx_index_of_def sample_env_def)

lemma push_empty:
  "items q = [] \<Longrightarrow> 0 < capacity q \<Longrightarrow> snd (push_with_pop_on_full q b) = q\<lparr>items := [b]\<rparr>"
  by (simp add: push_with_pop_on_full_def)

lemma items_update_id: "items q = xs \<Longrightarrow> q\<lparr>items := xs\<rparr> = q"
  by (rule bounded_buffer.equality) simp_all

lemma get_recv_buff_example:
  assumes idx: "unat index < length (buffs_queue s)"
    and oth: "unat other < length (buffs_queue s)"
    and ne: "other \<noteq> index"
    and e1: "items (buffs_queue s ! unat index) = []"
    and e2: "items (buffs_queue s ! unat other) = []"
    and cap: "0 < capacity (buffs_queue s ! unat other)"
    and f1: "data_transport s (xport_calls s) t = Some b1"
    and f2: "data_transport s (Suc (xport_calls s)) t = Some b0"
    and l1: "1 < length b1" and l0: "1 < length b0"
    and r1: "rx_index_of env b1 = other" and r0: "rx_index_of env b0 = index"
  shows "get_recv_buff env index t s =
           Some (Inr (Some b0,
             s\<lparr>xport_calls := xport_calls s + 2,
               buffs_queue := (buffs_queue s)
                 [unat other := (buffs_queue s ! unat other)\<lparr>items := [b1]\<rparr>]\<rparr>))"
    and "get_recv_buff env other t'
           (s\<lparr>xport_calls := xport_calls s + 2,
              buffs_queue := (buffs_queue s)
                 [unat other := (buffs_queue s ! unat other)\<lparr>items := [b1]\<rparr>]\<rparr>)
         = Some (Inr (Some b1, s\<lparr>xport_calls := xport_calls s + 2\<rparr>))"
proof -
  let ?q = "buffs_queue s ! unat other"
  let ?sa = "s\<lparr>xport_calls := Suc (xport_calls s),
                buffs_queue := (buffs_queue s)[unat other := ?q\<lparr>items := [b1]\<rparr>]\<rparr>"
  let ?s1 = "s\<lparr>xport_calls := xport_calls s + 2,
                buffs_queue := (buffs_queue s)[unat other := ?q\<lparr>items := [b1]\<rparr>]\<rparr>"
  from ne have une: "unat other \<noteq> unat index" by (simp add: word_unat_eq_iff)
  have "get_recv_buff env index t s = get_recv_buff env index t ?sa"
    using get_recv_buff_requeue [OF idx e1 f1 l1, of env] r1 ne oth
    by (simp add: push_empty [OF e2 cap])
  also have "\<dots> = Some (Inr (Some b0, ?sa\<lparr>xport_calls := Suc (xport_calls ?sa)\<rparr>))"
    by (rule get_recv_buff_match) (use idx e1 f2 l0 r0 une in simp_all)
  also have "?sa\<lparr>xport_calls := Suc (xport_calls ?sa)\<rparr> = ?s1" by simp
  finally show "get_recv_buff env index t s = Some (Inr (Some b0, ?s1))" .
  have "get_recv_buff env other t' ?s1
          = Some (Inr (Some b1, ?s1\<lparr>buffs_queue :=
                 (buffs_queue ?s1)[unat other := (buffs_queue ?s1 ! unat other)\<lparr>items := []\<rparr>]\<rparr>))"
    by (rule get_recv_buff_pop) (use oth in simp_all)
  also have "?s1\<lparr>buffs_queue :=
                 (buffs_queue ?s1)[unat other := (buffs_queue ?s1 ! unat other)\<lparr>items := []\<rparr>]\<rparr>
             = s\<lparr>xport_calls := xport_calls s + 2\<rparr>"
    using oth by (simp add: items_update_id [OF e2])
  finally show "get_recv_buff env other t' ?s1 = Some (Inr (Some b1, s\<lparr>xport_calls := xport_calls s + 2\<rparr>))" .
qed

text \<open>
  C1. If channel \<open>index\<close> is requested while its queue and that of another valid
  channel \<open>other\<close> are empty, and the transport delivers a buffer \<open>b1\<close> of channel
  \<open>other\<close> and then a buffer \<open>b0\<close> of channel \<open>index\<close>, the call returns
  \<open>b0\<close> after two transport calls and leaves \<open>b1\<close> in the queue of \<open>other\<close>; a
  request for \<open>other\<close> then returns \<open>b1\<close> and the number of transport calls stays
  the same. In general, a buffer of a valid channel that was not requested is pushed
  onto the queue of its channel and the loop goes on; and when every queued buffer sits
  in the queue of its own channel, a buffer returned for channel \<open>j\<close> is one of
  channel \<open>j\<close>, and the queues stay sorted by channel.
\<close>

theorem get_recv_buff_routes_by_stream_id:
  "(unat index < length (buffs_queue s) \<and> unat other < length (buffs_queue s)
      \<and> other \<noteq> index
      \<and> items (buffs_queue s ! unat index) = [] \<and> items (buffs_queue s ! unat other) = []
      \<and> 0 < capacity (buffs_queue s ! unat other)
      \<and> data_transport s (xport_calls s) t = Some b1
      \<and> data_transport s (Suc (xport_calls s)) t = Some b0
      \<and> 1 < length b1 \<and> 1 < length b0
      \<and> rx_index_of env b1 = other \<and> rx_index_of env b0 = index
    \<longrightarrow> get_recv_buff env index t s =
           Some (Inr (Some b0,
             s\<lparr>xport_calls := xport_calls s + 2,
               buffs_queue := (buffs_queue s)
                 [unat other := (buffs_queue s ! unat other)\<lparr>items := [b1]\<rparr>]\<rparr>))
        \<and> get_recv_buff env other t'
           (s\<lparr>xport_calls := xport_calls s + 2,
              buffs_queue := (buffs_queue s)
                 [unat other := (buffs_queue s ! unat other)\<lparr>items := [b1]\<rparr>]\<rparr>)
           = Some (Inr (Some b1, s\<lparr>xport_calls := xport_calls s + 2\<rparr>)))
   \<and> (unat i < length (buffs_queue u) \<and> items (buffs_queue u ! unat i) = []
      \<and> data_transport u (xport_calls u) t = Some buff \<and> 1 < length buff
      \<and> rx_index_of env buff \<noteq> i \<and> unat (rx_index_of env buff) < length (buffs_queue u)
    \<longrightarrow> get_recv_buff env i t u =
         get_recv_buff env i t
           (u\<lparr>xport_calls := Suc (xport_calls u),
              buffs_queue := (buffs_queue u)
                [unat (rx_index_of env buff) :=
                   snd (push_with_pop_on_full (buffs_queue u ! unat (rx_index_of env buff)) buff)]\<rparr>))
   \<and> (routed env v \<and> get_recv_buff env j t v = Some (Inr (Some b, v'))
    \<longrightarrow> rx_index_of env b = j \<and> routed env v')"
proof (intro conjI)
  show "unat index < length (buffs_queue s) \<and> unat other < length (buffs_queue s)
      \<and> other \<noteq> index
      \<and> items (buffs_queue s ! unat index) = [] \<and> items (buffs_queue s ! unat other) = []
      \<and> 0 < capacity (buffs_queue s ! unat other)
      \<and> data_transport s (xport_calls s) t = Some b1
      \<and> data_transport s (Suc (xport_calls s)) t = Some b0
      \<and> 1 < length b1 \<and> 1 < length b0
      \<and> rx_index_of env b1 = other \<and> rx_index_of env b0 = index
    \<longrightarrow> get_recv_buff env index t s =
           Some (Inr (Some b0,
             s\<lparr>xport_calls := xport_calls s + 2,
               buffs_queue := (buffs_queue s)
                 [unat other := (buffs_queue s ! unat other)\<lparr>items := [b1]\<rparr>]\<rparr>))
        \<and> get_recv_buff env other t'
           (s\<lparr>xport_calls := xport_calls s + 2,
              buffs_queue := (buffs_queue s)
                 [unat other := (buffs_queue s ! unat other)\<lparr>items := [b1]\<rparr>]\<rparr>)
           = Some (Inr (Some b1, s\<lparr>xport_calls := xport_calls s + 2\<rparr>))"
    by (blast intro: get_recv_buff_example)
  show "unat i < length (buffs_queue u) \<and> items (buffs_queue u ! unat i) = []
      \<and> data_transport u (xport_calls u) t = Some buff \<and> 1 < length buff
      \<and> rx_index_of env buff \<noteq> i \<and> unat (rx_index_of env buff) < length (buffs_queue u)
    \<longrightarrow> get_recv_buff env i t u =
         get_recv_buff env i t
           (u\<lparr>xport_calls := Suc (xport_calls u),
              buffs_queue := (buffs_queue u)
                [unat (rx_index_of env buff) :=
                   snd (push_with_pop_on_full (buffs_queue u ! unat (rx_index_of env buff)) buff)]\<rparr>)"
    by (blast intro: get_recv_buff_requeue)
  show "routed env v \<and> get_recv_buff env j t v = Some (Inr (Some b, v'))
    \<longrightarrow> rx_index_of env b = j \<and> routed env v'"
    by (blast dest: get_recv_buff_routed)
qed

theorem get_recv_buff_routes_by_stream_id_witness:
  "get_recv_buff sample_env 0 1 (io_impl_new two_then_timeout 16 2) =
      Some (Inr (Some [0, 2],
        (io_impl_new two_then_timeout 16 2)
          \<lparr>xport_calls := Suc (Suc 0),
           buffs_queue := [bounded_buffer_new 16, (bounded_buffer_new 16)\<lparr>items := [[0, 3]]\<rparr>]\<rparr>))
   \<and> get_recv_buff sample_env 1 1
        ((io_impl_new two_then_timeout 16 2)
          \<lparr>xport_calls := Suc (Suc 0),
           buffs_queue := [bounded_buffer_new 16, (bounded_buffer_new 16)\<lparr>items := [[0, 3]]\<rparr>]\<rparr>)
      = Some (Inr (Some [0, 3], (io_impl_new two_then_timeout 16 2)\<lparr>xport_calls := Suc (Suc 0)\<rparr>))
   \<and> get_recv_buff sample_env 0 1 (io_impl_new two_then_timeout 16 2) =
       get_recv_buff sample_env 0 1
        ((io_impl_new two_then_timeout 16 2)
          \<lparr>xport_calls := Suc 0,
           buffs_queue := [bounded_buffer_new 16, (bounded_buffer_new 16)\<lparr>items := [[0, 3]]\<rparr>]\<rparr>)
   \<and> routed sample_env (io_impl_new two_then_timeout 16 2)
   \<and> routed sample_env
        ((io_impl_new two_then_timeout 16 2)
          \<lparr>xport_calls := Suc (Suc 0),
           buffs_queue := [bounded_buffer_new 16, (bounded_buffer_new 16)\<lparr>items := [[0, 3]]\<rparr>]\<rparr>)"
proof -
  let ?s = "io_impl_new two_then_timeout 16 2"
  let ?s1 = "?s\<lparr>xport_calls := Suc (Suc 0),
           buffs_queue := [bounded_buffer_new 16, (bounded_buffer_new 16)\<lparr>items := [[0, 3]]\<rparr>]\<rparr>"
  have x: "xport_calls ?s = 0" "data_transport ?s = two_then_timeout"
    by (simp_all add: io_impl_new_def)
  have f: "two_then_timeout 0 1 = Some [0, 3]" "two_then_timeout (Suc 0) 1 = Some [0, 2]"
    by (simp_all add: two_then_timeout_def)
  have i: "items (bounded_buffer_new 16) = []" "capacity (bounded_buffer_new 16) = 16"
    by (simp_all add: bounded_buffer_new_def)
  have p: "snd (push_with_pop_on_full (bounded_buffer_new 16) [0, 3 :: uint32_t])
             = (bounded_buffer_new 16)\<lparr>items := [[0, 3]]\<rparr>"
    by (simp add: push_empty i)
  have r0: "routed sample_env ?s"
    by (simp add: routed_def q i)
  note inst = get_recv_buff_routes_by_stream_id
    [where index = 0 and other = 1 and s = ?s and t = 1 and t' = 1
       and ?b1.0 = "[0, 3]" and ?b0.0 = "[0, 2]" and env = sample_env
       and i = 0 and u = ?s and buff = "[0, 3]"
       and v = ?s and j = 0 and b = "[0, 2]" and v' = ?s1]
  note p1 = inst [THEN conjunct1]
    and p2 = inst [THEN conjunct2, THEN conjunct1]
    and p3 = inst [THEN conjunct2, THEN conjunct2]
  from p1 have ex: "get_recv_buff sample_env 0 1 ?s = Some (Inr (Some [0, 2], ?s1))"
      "get_recv_buff sample_env 1 1 ?s1 = Some (Inr (Some [0, 3], ?s\<lparr>xport_calls := Suc (Suc 0)\<rparr>))"
    by (simp_all add: q x f i rx2 rx3)
  from p2 have st: "get_recv_buff sample_env 0 1 ?s =
       get_recv_buff sample_env 0 1
        (?s\<lparr>xport_calls := Suc 0,
           buffs_queue := [bounded_buffer_new 16, (bounded_buffer_new 16)\<lparr>items := [[0, 3]]\<rparr>]\<rparr>)"
    by (simp add: q x f i rx2 rx3 p)
  from p3 r0 ex(1) have "routed sample_env ?s1" by blast
  with ex st r0 show ?thesis by blast
qed

text \<open>
  C5. When the queue of the requested channel is empty and the transport delivers a
  buffer whose channel index is not below the number of queues, the call goes on as from
  the state in which only the transport-call count and the message log have changed: the
  buffer is in no queue and one error message was written. The buffer is not what the
  call returns (given that every queued buffer sits in the queue of its own channel),
  and with buffers of at least two words the call returns no fault at all.
\<close>

theorem get_recv_buff_discards_unroutable:
  assumes "unat index < length (buffs_queue s)"
    and "items (buffs_queue s ! unat index) = []"
    and "data_transport s (xport_calls s) t = Some buff"
    and "1 < length buff"
    and "\<not> unat (rx_index_of env buff) < length (buffs_queue s)"
  shows "get_recv_buff env index t s =
           get_recv_buff env index t
             (s\<lparr>xport_calls := Suc (xport_calls s),
                msgs := msgs s @ [error [Str ''Got a data packet with known SID '',
                                         U32 (wtohx env (buff ! 1))]]\<rparr>)
     \<and> (routed env s \<longrightarrow> get_recv_buff env index t s \<noteq> Some (Inr (Some buff, s')))
     \<and> ((\<forall>n b. data_transport s n t = Some b \<longrightarrow> 1 < length b)
          \<longrightarrow> get_recv_buff env index t s \<noteq> Some (Inl e))"
proof (intro conjI impI)
  show "get_recv_buff env index t s =
           get_recv_buff env index t
             (s\<lparr>xport_calls := Suc (xport_calls s),
                msgs := msgs s @ [error [Str ''Got a data packet with known SID '',
                                         U32 (wtohx env (buff ! 1))]]\<rparr>)"
    by (rule get_recv_buff_discard [OF assms])
next
  assume r: "routed env s"
  show "get_recv_buff env index t s \<noteq> Some (Inr (Some buff, s'))"
  proof
    assume "get_recv_buff env index t s = Some (Inr (Some buff, s'))"
    from get_recv_buff_routed [OF this r refl] have "rx_index_of env buff = index" by simp
    with assms(1,5) show False by simp
  qed
next
  assume a: "\<forall>n b. data_transport s n t = Some b \<longrightarrow> 1 < length b"
  show "get_recv_buff env index t s \<noteq> Some (Inl e)"
    using get_recv_buff_no_fault [OF _ assms(1) a] by blast
qed

theorem get_recv_buff_discards_unroutable_witness:
  "get_recv_buff sample_env 0 1 (io_impl_new unroutable_then_timeout 16 2) =
     Some (Inr (None,
       (io_impl_new unroutable_then_timeout 16 2)
         \<lparr>xport_calls := Suc (Suc 0),
          msgs := [error [Str ''Got a data packet with known SID '', U32 1]]\<rparr>))
   \<and> routed sample_env (io_impl_new unroutable_then_timeout 16 2)
   \<and> get_recv_buff sample_env 0 1 (io_impl_new unroutable_then_timeout 16 2)
       \<noteq> Some (Inl OutOfRange)"
proof -
  let ?s = "io_impl_new unroutable_then_timeout 16 2"
  let ?s1 = "?s\<lparr>xport_calls := Suc (xport_calls ?s),
                msgs := msgs ?s @ [error [Str ''Got a data packet with known SID '',
                                          U32 (wtohx sample_env ([0, 1] ! 1))]]\<rparr>"
  have x: "xport_calls ?s = 0" "data_transport ?s = unroutable_then_timeout" "msgs ?s = []"
    by (simp_all add: io_impl_new_def)
  have i: "items (bounded_buffer_new 16) = []"
    by (simp add: bounded_buffer_new_def)
  have h1: "unat (0 :: size_t) < length (buffs_queue ?s)" by (simp add: q)
  have h2: "items (buffs_queue ?s ! unat (0 :: size_t)) = []" by (simp add: q i)
  have h3: "data_transport ?s (xport_calls ?s) 1 = Some [0, 1]"
    by (simp add: x unroutable_then_timeout_def)
  have h4: "1 < length [0, 1 :: uint32_t]" by simp
  have h5: "\<not> unat (rx_index_of sample_env [0, 1]) < length (buffs_queue ?s)"
    by (simp add: rx1 q)
  have r0: "routed sample_env ?s" by (simp add: routed_def q i)
  have fr: "\<forall>n b. data_transport ?s n 1 = Some b \<longrightarrow> 1 < length b"
    by (simp add: x unroutable_then_timeout_def)
  note inst = get_recv_buff_discards_unroutable [OF h1 h2 h3 h4 h5, where s' = ?s and e = OutOfRange]
  have "get_recv_buff sample_env 0 1 ?s1 = Some (Inr (None, ?s1\<lparr>xport_calls := Suc (xport_calls ?s1)\<rparr>))"
    by (rule get_recv_buff_timeout) (simp_all add: q i x unroutable_then_timeout_def)
  with inst [THEN conjunct1]
  have "get_recv_buff sample_env 0 1 ?s = Some (Inr (None, ?s1\<lparr>xport_calls := Suc (xport_calls ?s1)\<rparr>))"
    by simp
  moreover have "?s1\<lparr>xport_calls := Suc (xport_calls ?s1)\<rparr> =
       ?s\<lparr>xport_calls := Suc (Suc 0),
          msgs := [error [Str ''Got a data packet with known SID '', U32 1]]\<rparr>"
    by (simp add: x sample_env_def)
  moreover from inst [THEN conjunct2, THEN conjunct2] fr
  have "get_recv_buff sample_env 0 1 ?s \<noteq> Some (Inl OutOfRange)" by blast
  ultimately show ?thesis using r0 by simp
qed



text \<open>
  C6, as the code has it. A call for a valid channel whose queue is empty returns at the
  first transport call that times out or delivers a buffer of the requested channel:
  after \<open>k\<close> buffers of other channels it has made \<open>k + 1\<close> transport calls, each with
  the caller's full timeout, and returns what the last one handed out. While the
  transport keeps delivering buffers of other channels the call does not return.
\<close>

theorem get_recv_buff_returns_at_first_match_or_timeout:
  "(unat index < length (buffs_queue s) \<and> items (buffs_queue s ! unat index) = []
      \<and> (\<forall>m<k. \<exists>b. data_transport s (xport_calls s + m) t = Some b
                    \<and> 1 < length b \<and> rx_index_of env b \<noteq> index)
      \<and> (data_transport s (xport_calls s + k) t = None
         \<or> (\<exists>b. data_transport s (xport_calls s + k) t = Some b
                  \<and> 1 < length b \<and> rx_index_of env b = index))
    \<longrightarrow> (\<exists>s'. get_recv_buff env index t s
                 = Some (Inr (data_transport s (xport_calls s + k) t, s'))
              \<and> xport_calls s' = xport_calls s + k + 1))
   \<and> (unat i < length (buffs_queue u) \<and> items (buffs_queue u ! unat i) = []
      \<and> (\<forall>n. \<exists>b. data_transport u n t = Some b \<and> 1 < length b \<and> rx_index_of env b \<noteq> i)
    \<longrightarrow> get_recv_buff env i t u = None)"
proof (intro conjI impI)
  assume "unat index < length (buffs_queue s) \<and> items (buffs_queue s ! unat index) = []
      \<and> (\<forall>m<k. \<exists>b. data_transport s (xport_calls s + m) t = Some b
                    \<and> 1 < length b \<and> rx_index_of env b \<noteq> index)
      \<and> (data_transport s (xport_calls s + k) t = None
         \<or> (\<exists>b. data_transport s (xport_calls s + k) t = Some b
                  \<and> 1 < length b \<and> rx_index_of env b = index))"
  then show "\<exists>s'. get_recv_buff env index t s
                 = Some (Inr (data_transport s (xport_calls s + k) t, s'))
              \<and> xport_calls s' = xport_calls s + k + 1"
    by (intro get_recv_buff_returns) simp_all
next
  assume a: "unat i < length (buffs_queue u) \<and> items (buffs_queue u ! unat i) = []
      \<and> (\<forall>n. \<exists>b. data_transport u n t = Some b \<and> 1 < length b \<and> rx_index_of env b \<noteq> i)"
  show "get_recv_buff env i t u = None"
  proof (cases "get_recv_buff env i t u")
    case None
    then show ?thesis .
  next
    case (Some r)
    from get_recv_buff_spins [OF Some] a have False by blast
    then show ?thesis ..
  qed
qed

theorem get_recv_buff_returns_at_first_match_or_timeout_witness:
  "(\<exists>s'. get_recv_buff sample_env 0 1 (io_impl_new two_then_timeout 16 2)
            = Some (Inr (Some [0, 2], s')) \<and> xport_calls s' = Suc (Suc 0))
   \<and> get_recv_buff sample_env 0 1 (io_impl_new other_channel_forever 16 2) = None"
proof -
  let ?s = "io_impl_new two_then_timeout 16 2"
  let ?u = "io_impl_new other_channel_forever 16 2"
  have x: "xport_calls ?s = 0" "data_transport ?s = two_then_timeout"
    "data_transport ?u = other_channel_forever"
    by (simp_all add: io_impl_new_def)
  have i: "items (bounded_buffer_new 16) = []"
    by (simp add: bounded_buffer_new_def)
  have h: "unat (0 :: size_t) < length (buffs_queue ?s)
      \<and> items (buffs_queue ?s ! unat (0 :: size_t)) = []
      \<and> (\<forall>m<1. \<exists>b. data_transport ?s (xport_calls ?s + m) 1 = Some b
                    \<and> 1 < length b \<and> rx_index_of sample_env b \<noteq> 0)
      \<and> (data_transport ?s (xport_calls ?s + 1) 1 = None
         \<or> (\<exists>b. data_transport ?s (xport_calls ?s + 1) 1 = Some b
                  \<and> 1 < length b \<and> rx_index_of sample_env b = 0))"
    by (simp add: q i x two_then_timeout_def rx2 rx3)
  have h': "unat (0 :: size_t) < length (buffs_queue ?u)
      \<and> items (buffs_queue ?u ! unat (0 :: size_t)) = []
      \<and> (\<forall>n. \<exists>b. data_transport ?u n 1 = Some b \<and> 1 < length b
                   \<and> rx_index_of sample_env b \<noteq> 0)"
    by (simp add: q i x other_channel_forever_def rx3)
  note inst = get_recv_buff_returns_at_first_match_or_timeout
    [where index = 0 and s = ?s and k = 1 and t = 1 and env = sample_env and i = 0 and u = ?u]
  from inst [THEN conjunct1, THEN mp, OF h]
  have "\<exists>s'. get_recv_buff sample_env 0 1 ?s = Some (Inr (Some [0, 2], s')) \<and> xport_calls s' = Suc (Suc 0)"
    by (simp add: x two_then_timeout_def)
  moreover from inst [THEN conjunct2, THEN mp, OF h']
  have "get_recv_buff sample_env 0 1 ?u = None" .
  ultimately show ?thesis by blast
qed

text \<open>
  C6 as stated fails: with two channels and a transport that delivers buffers of channel
  1 without end, a request for channel 0 never returns.
\<close>

theorem get_recv_buff_never_returns_counterexample:
  "get_recv_buff sample_env 0 1 (io_impl_new other_channel_forever 16 2) = None"
proof (cases "get_recv_buff sample_env 0 1 (io_impl_new other_channel_forever 16 2)")
  case None
  then show ?thesis .
next
  case (Some r)
  then have False
    by (rule get_recv_buff_spins)
       (simp_all add: q bounded_buffer_new_def rx3, simp_all add: io_impl_new_def other_channel_forever_def rx3)
  then show ?thesis ..
qed

subsection \<open>Samples per packet\<close>

lemma unat_hdr_size_send:
  assumes "unat (C :: size_t) \<le> 4 * unat (M :: size_t)" and "4 * unat M \<le> 2048 + unat C"
    and "4 * unat M < 2 ^ 64"
  shows "unat (2048 - (0 + M * 4 - C)) = 2048 - (4 * unat M - unat C)"
proof -
  have "unat M * unat (4 :: size_t) < 2 ^ LENGTH(64)"
    using assms by simp
  from unat_mult_lem [THEN iffD1, OF this] have m: "unat (M * 4) = unat M * 4" by simp
  have le: "C \<le> M * 4" using assms m by (simp add: word_le_nat_alt)
  have h: "unat (M * 4 - C) = 4 * unat M - unat C"
    using unat_sub [OF le] m by simp
  have "M * 4 - C \<le> 2048" using h assms by (simp add: word_le_nat_alt)
  from unat_sub [OF this] h show ?thesis by simp
qed

lemma unat_hdr_size_recv:
  assumes "unat (C :: size_t) \<le> 4 * unat (M :: size_t)"
    and "4 * unat M + unat (T :: size_t) \<le> 2048 + unat C"
    and "4 * unat M + unat T < 2 ^ 64"
  shows "unat (2048 - (0 + M * 4 + T - C)) = 2048 - (4 * unat M + unat T - unat C)"
proof -
  have "unat M * unat (4 :: size_t) < 2 ^ LENGTH(64)"
    using assms by simp
  from unat_mult_lem [THEN iffD1, OF this] have m: "unat (M * 4) = unat M * 4" by simp
  have "unat (M * 4) + unat T < 2 ^ LENGTH(64)"
    using assms m by simp
  from unat_add_lem [THEN iffD1, OF this] m have a: "unat (M * 4 + T) = unat M * 4 + unat T"
    by simp
  have le: "C \<le> M * 4 + T" using assms a by (simp add: word_le_nat_alt)
  have h: "unat (M * 4 + T - C) = 4 * unat M + unat T - unat C"
    using unat_sub [OF le] a by simp
  have "M * 4 + T - C \<le> 2048" using h assms by (simp add: word_le_nat_alt)
  from unat_sub [OF this] h show ?thesis by simp
qed

text \<open>
  C8. With a header overhead that does not wrap around (the class id is no larger than
  the maximum header, and the maximum header plus the trailer, less the class id, fits
  in the 2048 bytes of a packet) and sample sizes that are not zero, the send bound is
  \<open>(2048 - (4 * max_if_hdr_words32 - sizeof cid)) div sample size\<close>, the receive bound
  is \<open>(2048 - (4 * max_if_hdr_words32 + sizeof tlr - sizeof cid)) div sample size\<close>,
  and for equal sample sizes the receive bound is no larger than the send bound.
\<close>

theorem max_samps_per_packet_formula:
  assumes "unat (sizeof_cid env) \<le> 4 * unat (max_if_hdr_words32 env)"
    and "4 * unat (max_if_hdr_words32 env) + unat (sizeof_tlr env) \<le> 2048 + unat (sizeof_cid env)"
    and "4 * unat (max_if_hdr_words32 env) + unat (sizeof_tlr env) < 2 ^ 64"
    and "get_sample_size env (tx_otw_type s) \<noteq> 0"
    and "get_sample_size env (rx_otw_type s) \<noteq> 0"
  shows "\<exists>ntx nrx.
      get_max_send_samps_per_packet env s = Inr ntx
    \<and> get_max_recv_samps_per_packet env s = Inr nrx
    \<and> unat ntx = (2048 - (4 * unat (max_if_hdr_words32 env) - unat (sizeof_cid env)))
                   div unat (get_sample_size env (tx_otw_type s))
    \<and> unat nrx = (2048 - (4 * unat (max_if_hdr_words32 env) + unat (sizeof_tlr env)
                            - unat (sizeof_cid env)))
                   div unat (get_sample_size env (rx_otw_type s))
    \<and> (get_sample_size env (rx_otw_type s) = get_sample_size env (tx_otw_type s)
         \<longrightarrow> nrx \<le> ntx)"
proof -
  let ?M = "max_if_hdr_words32 env" and ?C = "sizeof_cid env" and ?T = "sizeof_tlr env"
  let ?ntx = "(2048 - (0 + ?M * 4 - ?C)) div get_sample_size env (tx_otw_type s)"
  let ?nrx = "(2048 - (0 + ?M * 4 + ?T - ?C)) div get_sample_size env (rx_otw_type s)"
  have le: "4 * unat ?M \<le> 2048 + unat ?C" "4 * unat ?M < 2 ^ 64" using assms(2,3) by simp_all
  have s: "get_max_send_samps_per_packet env s = Inr ?ntx"
    using assms(4) by (simp add: get_max_send_samps_per_packet_def Let_def)
  have r: "get_max_recv_samps_per_packet env s = Inr ?nrx"
    using assms(5) by (simp add: get_max_recv_samps_per_packet_def Let_def)
  have us: "unat ?ntx = (2048 - (4 * unat ?M - unat ?C)) div unat (get_sample_size env (tx_otw_type s))"
    by (simp only: unat_div unat_hdr_size_send [OF assms(1) le])
  have ur: "unat ?nrx = (2048 - (4 * unat ?M + unat ?T - unat ?C))
                          div unat (get_sample_size env (rx_otw_type s))"
    by (simp only: unat_div unat_hdr_size_recv [OF assms(1,2,3)])
  have "get_sample_size env (rx_otw_type s) = get_sample_size env (tx_otw_type s) \<longrightarrow> ?nrx \<le> ?ntx"
  proof
    assume e: "get_sample_size env (rx_otw_type s) = get_sample_size env (tx_otw_type s)"
    have "2048 - (4 * unat ?M + unat ?T - unat ?C) \<le> 2048 - (4 * unat ?M - unat ?C)"
      by simp
    then have "(2048 - (4 * unat ?M + unat ?T - unat ?C)) div unat (get_sample_size env (tx_otw_type s))
                 \<le> (2048 - (4 * unat ?M - unat ?C)) div unat (get_sample_size env (tx_otw_type s))"
      by (rule div_le_mono)
    with us ur e have "unat ?nrx \<le> unat ?ntx" by simp
    then show "?nrx \<le> ?ntx" by (simp add: word_le_nat_alt)
  qed
  with s r us ur show ?thesis by blast
qed

theorem max_samps_per_packet_formula_witness:
  "get_max_send_samps_per_packet sample_env sample_b100 = Inr 507
   \<and> get_max_recv_samps_per_packet sample_env sample_b100 = Inr 506
   \<and> (\<exists>ntx nrx.
        get_max_send_samps_per_packet sample_env sample_b100 = Inr ntx
      \<and> get_max_recv_samps_per_packet sample_env sample_b100 = Inr nrx
      \<and> unat ntx = 507 \<and> unat nrx = 506 \<and> nrx \<le> ntx)"
proof -
  have e: "max_if_hdr_words32 sample_env = 7" "sizeof_cid sample_env = 8"
    "sizeof_tlr sample_env = 4"
    "get_sample_size sample_env (tx_otw_type sample_b100) = 4"
    "get_sample_size sample_env (rx_otw_type sample_b100) = 4"
    by (simp_all add: sample_env_def sample_b100_def)
  have s: "get_max_send_samps_per_packet sample_env sample_b100 = Inr 507"
    by (simp add: get_max_send_samps_per_packet_def Let_def e)
  have r: "get_max_recv_samps_per_packet sample_env sample_b100 = Inr 506"
    by (simp add: get_max_recv_samps_per_packet_def Let_def e)
  from max_samps_per_packet_formula [of sample_env sample_b100]
  have "\<exists>ntx nrx.
        get_max_send_samps_per_packet sample_env sample_b100 = Inr ntx
      \<and> get_max_recv_samps_per_packet sample_env sample_b100 = Inr nrx
      \<and> unat ntx = 507 \<and> unat nrx = 506 \<and> nrx \<le> ntx"
    unfolding e by simp
  with s r show ?thesis by blast
qed

subsection \<open>The asynchronous event handler\<close>

lemma handle_async_message_result:
  assumes "if_hdr_unpack_le env rbuf (uninit\<lparr>num_packet_words32 := of_nat (length rbuf)\<rparr>)
             = (thrown, info)"
  shows "async_msg_fifo (io (handle_async_message env uninit rbuf s)) =
     (if sid info = B100_TX_ASYNC_SID env \<and> packet_type info \<noteq> PACKET_TYPE_DATA
      then snd (push_with_pop_on_full (async_msg_fifo (io s))
             \<lparr>channel = 0,
              has_time_spec = (has_tsi info \<and> has_tsf info),
              time_spec = \<lparr>full_secs = tsi info, tick_count = tsf info,
                           tick_rate = fpga_clock_rate s\<rparr>,
              event_code = get_context_code env rbuf info\<rparr>)
      else async_msg_fifo (io s))"
  using assms
  by (simp add: handle_async_message_def Let_def uhd_msg_out_def split: option.split)

lemma handle_async_message_msgs:
  assumes "if_hdr_unpack_le env rbuf (uninit\<lparr>num_packet_words32 := of_nat (length rbuf)\<rparr>)
             = (None, info)"
  shows "msgs (io (handle_async_message env uninit rbuf s)) =
     msgs (io s) @
     (if sid info = B100_TX_ASYNC_SID env \<and> packet_type info \<noteq> PACKET_TYPE_DATA
      then (if get_context_code env rbuf info
                 AND (EVENT_CODE_UNDERFLOW env OR EVENT_CODE_UNDERFLOW_IN_PACKET env) \<noteq> 0
            then [fastpath [Str ''U'']]
            else if get_context_code env rbuf info
                 AND (EVENT_CODE_SEQ_ERROR env OR EVENT_CODE_SEQ_ERROR_IN_BURST env) \<noteq> 0
            then [fastpath [Str ''S'']]
            else [])
      else [error [Str ''Unknown async packet'']])"
  using assms
  by (simp add: handle_async_message_def Let_def uhd_msg_out_def)

text \<open>
  C7. When the header decodes, \<^verbatim>\<open>handle_async_message\<close> pushes a record onto the
  event queue exactly when the stream id is \<^verbatim>\<open>B100_TX_ASYNC_SID\<close> and the packet type
  is not data. The record has channel 0, the event code given by the context code of
  the packet, and a time stamp marked valid exactly when both time stamp flags are set;
  the only messages written are the fast-path marks. In every other case the queue is
  left as it was and the message \<open>Unknown async packet\<close> is written.
\<close>

theorem handle_async_message_pushes_iff:
  assumes "if_hdr_unpack_le env rbuf (uninit\<lparr>num_packet_words32 := of_nat (length rbuf)\<rparr>)
             = (None, info)"
  shows "(sid info = B100_TX_ASYNC_SID env \<and> packet_type info \<noteq> PACKET_TYPE_DATA \<longrightarrow>
            async_msg_fifo (io (handle_async_message env uninit rbuf s)) =
              snd (push_with_pop_on_full (async_msg_fifo (io s))
                \<lparr>channel = 0,
                 has_time_spec = (has_tsi info \<and> has_tsf info),
                 time_spec = \<lparr>full_secs = tsi info, tick_count = tsf info,
                              tick_rate = fpga_clock_rate s\<rparr>,
                 event_code = get_context_code env rbuf info\<rparr>)
          \<and> (\<exists>ms. msgs (io (handle_async_message env uninit rbuf s)) = msgs (io s) @ ms
                 \<and> set ms \<subseteq> {fastpath [Str ''U''], fastpath [Str ''S'']}))
       \<and> (\<not> (sid info = B100_TX_ASYNC_SID env \<and> packet_type info \<noteq> PACKET_TYPE_DATA) \<longrightarrow>
            async_msg_fifo (io (handle_async_message env uninit rbuf s)) = async_msg_fifo (io s)
          \<and> msgs (io (handle_async_message env uninit rbuf s))
              = msgs (io s) @ [error [Str ''Unknown async packet'']])"
  unfolding handle_async_message_result [OF assms] handle_async_message_msgs [OF assms]
  by auto

theorem handle_async_message_pushes_iff_witness:
  "items (async_msg_fifo (io (handle_async_message sample_env stale_if_packet_info
            [0x40F00003, 1, 2] sample_b100)))
     = [\<lparr>channel = 0, has_time_spec = True,
         time_spec = \<lparr>full_secs = 0, tick_count = 0, tick_rate = 64000000\<rparr>,
         event_code = 2\<rparr>]
   \<and> items (async_msg_fifo (io (handle_async_message sample_env stale_if_packet_info
            [0x40F00003, 5, 2] sample_b100))) = []
   \<and> msgs (io (handle_async_message sample_env stale_if_packet_info
            [0x40F00003, 5, 2] sample_b100)) = [error [Str ''Unknown async packet'']]"
proof -
  let ?i = "\<lambda>w. stale_if_packet_info
             \<lparr>num_packet_words32 := 3, packet_type := PACKET_TYPE_CONTEXT,
              num_header_words32 := 2, has_sid := True, sid := w,
              has_tsi := True, has_tsf := True\<rparr>"
  have d: "if_hdr_unpack_le sample_env [0x40F00003, w, 2]
             (stale_if_packet_info\<lparr>num_packet_words32 := of_nat (length [0x40F00003, w, 2 :: uint32_t])\<rparr>)
           = (None, ?i w)" for w
    by (simp add: sample_env_def vrt_unpack_sample_def)
  have f: "async_msg_fifo (io sample_b100) = bounded_buffer_new 100" "msgs (io sample_b100) = []"
    "fpga_clock_rate sample_b100 = 64000000"
    by (simp_all add: sample_b100_def io_impl_new_def)
  have e: "B100_TX_ASYNC_SID sample_env = 1"
    "get_context_code sample_env [0x40F00003, w, 2] j = 2" for w j
    by (simp_all add: sample_env_def)
  have g: "sid (?i w) = w" "packet_type (?i w) = PACKET_TYPE_CONTEXT" "has_tsi (?i w)" "has_tsf (?i w)"
    "tsi (?i w) = 0" "tsf (?i w) = 0" for w
    by (simp_all add: stale_if_packet_info_def)
  from handle_async_message_pushes_iff [OF d [of 1], of sample_b100]
  have "async_msg_fifo (io (handle_async_message sample_env stale_if_packet_info
            [0x40F00003, 1, 2] sample_b100))
     = snd (push_with_pop_on_full (bounded_buffer_new 100)
         \<lparr>channel = 0, has_time_spec = True,
         time_spec = \<lparr>full_secs = 0, tick_count = 0, tick_rate = 64000000\<rparr>,
         event_code = 2\<rparr>)"
    unfolding g e f by simp
  then have a: "items (async_msg_fifo (io (handle_async_message sample_env stale_if_packet_info
            [0x40F00003, 1, 2] sample_b100)))
     = [\<lparr>channel = 0, has_time_spec = True,
         time_spec = \<lparr>full_secs = 0, tick_count = 0, tick_rate = 64000000\<rparr>,
         event_code = 2\<rparr>]"
    by (simp add: push_with_pop_on_full_def bounded_buffer_new_def)
  from handle_async_message_pushes_iff [OF d [of 5], of sample_b100]
  have "async_msg_fifo (io (handle_async_message sample_env stale_if_packet_info
            [0x40F00003, 5, 2] sample_b100)) = bounded_buffer_new 100
     \<and> msgs (io (handle_async_message sample_env stale_if_packet_info
            [0x40F00003, 5, 2] sample_b100)) = [error [Str ''Unknown async packet'']]"
    unfolding g e f by simp
  with a show ?thesis by (simp add: bounded_buffer_new_def)
qed

text \<open>
  C2 fails on the code. The handler catches the exception of the decode and reports it,
  but then goes on to test the stream id and packet type of the header info all the
  same. With an empty packet, on which the decode fails, and a header info whose
  memory still holds stream id 1 and a context packet type, the failure is reported and
  an event record is pushed nonetheless.
\<close>

theorem handle_async_message_decode_failure_pushes_record:
  "fst (if_hdr_unpack_le sample_env []
         (stale_if_packet_info\<lparr>num_packet_words32 := of_nat (length ([] :: uint32_t list))\<rparr>))
     = Some ''bad vrt header or packet fragment''
   \<and> items (async_msg_fifo (io (handle_async_message sample_env stale_if_packet_info []
                                   sample_b100)))
     = [\<lparr>channel = 0, has_time_spec = False,
         time_spec = \<lparr>full_secs = 0, tick_count = 0, tick_rate = 64000000\<rparr>,
         event_code = 0\<rparr>]
   \<and> msgs (io (handle_async_message sample_env stale_if_packet_info [] sample_b100))
     = [error [Str ''Error (handle_async_message): '',
               Str ''bad vrt header or packet fragment'']]"
proof -
  have d: "if_hdr_unpack_le sample_env []
         (stale_if_packet_info\<lparr>num_packet_words32 := of_nat (length ([] :: uint32_t list))\<rparr>)
     = (Some ''bad vrt header or packet fragment'',
        stale_if_packet_info\<lparr>num_packet_words32 := 0\<rparr>)"
    by (simp add: sample_env_def vrt_unpack_sample_def)
  have f: "async_msg_fifo (io sample_b100) = bounded_buffer_new 100" "msgs (io sample_b100) = []"
    "fpga_clock_rate sample_b100 = 64000000"
    by (simp_all add: sample_b100_def io_impl_new_def)
  have e: "B100_TX_ASYNC_SID sample_env = 1" "get_context_code sample_env [] j = 0" for j
    by (simp_all add: sample_env_def)
  have m: "msgs (io (handle_async_message sample_env stale_if_packet_info [] sample_b100))
     = [error [Str ''Error (handle_async_message): '',
               Str ''bad vrt header or packet fragment'']]"
    using d
    by (simp add: handle_async_message_def Let_def uhd_msg_out_def f e stale_if_packet_info_def
          sample_env_def push_with_pop_on_full_def)
  have "items (async_msg_fifo (io (handle_async_message sample_env stale_if_packet_info []
                                   sample_b100)))
     = [\<lparr>channel = 0, has_time_spec = False,
         time_spec = \<lparr>full_secs = 0, tick_count = 0, tick_rate = 64000000\<rparr>,
         event_code = 0\<rparr>]"
    unfolding handle_async_message_result [OF d]
    by (simp add: f e stale_if_packet_info_def push_with_pop_on_full_def bounded_buffer_new_def)
  with d m show ?thesis by simp
qed

subsection \<open>Reconfiguration of the sub-device spec\<close>

lemma length_resize [simp]: "length (resize d n xs) = n"
  by (simp add: resize_def)

lemma rx_setup_mux_ok:
  assumes "\<forall>i\<in>set is. i < length spec \<and> i < length (rx_dsps s)
             \<and> tree s (rx_connection_path (spec ! i)) \<noteq> None"
  shows "\<exists>s'. rx_setup_mux spec is s = Inr s'
           \<and> tree s' = tree s \<and> io s' = io s \<and> tx_fe s' = tx_fe s
           \<and> rx_otw_type s' = rx_otw_type s
           \<and> length (rx_dsps s') = length (rx_dsps s)
           \<and> (\<forall>i\<in>set is. Some (rx_mux (rx_dsps s' ! i)) = tree s (rx_connection_path (spec ! i)))
           \<and> (\<forall>j. j \<notin> set is \<longrightarrow> rx_dsps s' ! j = rx_dsps s ! j)"
  using assms
proof (induction "is" arbitrary: s)
  case Nil
  then show ?case by simp
next
  case (Cons i "is")
  from Cons.prems obtain conn where c: "tree s (rx_connection_path (spec ! i)) = Some conn"
    and i: "i < length spec" "i < length (rx_dsps s)"
    by auto
  let ?s1 = "s\<lparr>rx_dsps := (rx_dsps s)[i := (rx_dsps s ! i)\<lparr>rx_mux := conn\<rparr>]\<rparr>"
  have step: "rx_setup_mux spec (i # is) s = rx_setup_mux spec is ?s1"
    using c i by (simp add: access_def rx_connection_path_def)
  have "\<forall>k\<in>set is. k < length spec \<and> k < length (rx_dsps ?s1)
             \<and> tree ?s1 (rx_connection_path (spec ! k)) \<noteq> None"
    using Cons.prems by simp
  from Cons.IH [OF this] obtain s' where s': "rx_setup_mux spec is ?s1 = Inr s'"
      "tree s' = tree s" "io s' = io s" "tx_fe s' = tx_fe s" "rx_otw_type s' = rx_otw_type s"
      "length (rx_dsps s') = length (rx_dsps s)"
      "\<forall>k\<in>set is. Some (rx_mux (rx_dsps s' ! k)) = tree s (rx_connection_path (spec ! k))"
      "\<forall>j. j \<notin> set is \<longrightarrow> rx_dsps s' ! j = rx_dsps ?s1 ! j"
    by auto
  have "Some (rx_mux (rx_dsps s' ! i)) = tree s (rx_connection_path (spec ! i))"
  proof (cases "i \<in> set is")
    case True
    with s'(7) show ?thesis by blast
  next
    case False
    with s'(8) have "rx_dsps s' ! i = rx_dsps ?s1 ! i" by blast
    with i c show ?thesis by simp
  qed
  moreover have "\<forall>j. j \<notin> set (i # is) \<longrightarrow> rx_dsps s' ! j = rx_dsps s ! j"
    using s'(8) by auto
  ultimately show ?case unfolding step using s' by auto
qed

lemma rx_bind_callbacks_ok:
  assumes "\<forall>i\<in>set is. i < length (rx_dsps s)"
    and "get_sample_size env (rx_otw_type s) \<noteq> 0"
  shows "\<exists>s'. rx_bind_callbacks env is s = Inr s'
           \<and> map rx_mux (rx_dsps s') = map rx_mux (rx_dsps s)
           \<and> length (recv_handler (io s')) = length (recv_handler (io s))"
  using assms
proof (induction "is" arbitrary: s)
  case Nil
  then show ?case by simp
next
  case (Cons i "is")
  from Cons.prems(2) obtain n where n: "get_max_recv_samps_per_packet env s = Inr n"
    by (simp add: get_max_recv_samps_per_packet_def Let_def)
  let ?s1 = "s\<lparr>rx_dsps := (rx_dsps s)[i := (rx_dsps s ! i)\<lparr>nsamps_per_packet := n\<rparr>],
                io := (io s)\<lparr>recv_handler := (recv_handler (io s))
                         [i := \<lparr>xport_chan_get_buff = Some (of_nat i),
                                overflow_handler = Some i\<rparr>]\<rparr>\<rparr>"
  have step: "rx_bind_callbacks env (i # is) s = rx_bind_callbacks env is ?s1"
    using n Cons.prems(1) by simp
  have m: "map rx_mux (rx_dsps ?s1) = map rx_mux (rx_dsps s)"
    using Cons.prems(1) by (simp add: map_update list_update_same_conv)
  have "\<forall>k\<in>set is. k < length (rx_dsps ?s1)" using Cons.prems(1) by simp
  moreover have "get_sample_size env (rx_otw_type ?s1) \<noteq> 0" using Cons.prems(2) by simp
  ultimately obtain s' where "rx_bind_callbacks env is ?s1 = Inr s'"
      "map rx_mux (rx_dsps s') = map rx_mux (rx_dsps ?s1)"
      "length (recv_handler (io s')) = length (recv_handler (io ?s1))"
    using Cons.IH [of ?s1] by blast
  then show ?case unfolding step using m by simp
qed

lemma update_rx_subdev_spec_ok:
  assumes v: "validate_subdev_spec env (tree s) spec ''rx'' = None"
    and r: "\<forall>i<length spec. tree s (rx_connection_path (spec ! i)) \<noteq> None"
    and l: "length spec \<le> length (rx_dsps s)"
    and z: "get_sample_size env (rx_otw_type s) \<noteq> 0"
  shows "\<exists>s'. update_rx_subdev_spec env spec s = Inr s'
           \<and> (\<forall>i<length spec. Some (rx_mux (rx_dsps s' ! i)) = tree s (rx_connection_path (spec ! i)))
           \<and> length (recv_handler (io s')) = length spec"
proof -
  have "\<forall>i\<in>set [0..<length spec]. i < length spec \<and> i < length (rx_dsps s)
             \<and> tree s (rx_connection_path (spec ! i)) \<noteq> None"
    using r l by simp
  from rx_setup_mux_ok [OF this] obtain s1 where s1: "rx_setup_mux spec [0..<length spec] s = Inr s1"
      "rx_otw_type s1 = rx_otw_type s" "length (rx_dsps s1) = length (rx_dsps s)"
      "\<forall>i\<in>set [0..<length spec]. Some (rx_mux (rx_dsps s1 ! i)) = tree s (rx_connection_path (spec ! i))"
    by blast
  let ?s2 = "s1\<lparr>io := (io s1)\<lparr>recv_handler :=
                          resize \<lparr>xport_chan_get_buff = None, overflow_handler = None\<rparr>
                            (length spec) (recv_handler (io s1))\<rparr>\<rparr>"
  have u: "update_rx_subdev_spec env spec s = rx_bind_callbacks env [0..<length spec] ?s2"
    using v s1(1) by (simp add: update_rx_subdev_spec_def Let_def)
  have "\<forall>i\<in>set [0..<length spec]. i < length (rx_dsps ?s2)" using l s1(3) by simp
  moreover have "get_sample_size env (rx_otw_type ?s2) \<noteq> 0" using z s1(2) by simp
  ultimately obtain s' where s': "rx_bind_callbacks env [0..<length spec] ?s2 = Inr s'"
      "map rx_mux (rx_dsps s') = map rx_mux (rx_dsps ?s2)"
      "length (recv_handler (io s')) = length (recv_handler (io ?s2))"
    using rx_bind_callbacks_ok [of "[0..<length spec]" ?s2 env] by blast
  from s'(2) have "length (map rx_mux (rx_dsps s')) = length (map rx_mux (rx_dsps ?s2))"
    by simp
  then have len: "length (rx_dsps s') = length (rx_dsps s1)" by simp
  have "\<forall>i<length spec. Some (rx_mux (rx_dsps s' ! i)) = tree s (rx_connection_path (spec ! i))"
  proof (intro allI impI)
    fix i assume i: "i < length spec"
    then have "i < length (rx_dsps s1)" using l s1(3) by simp
    then have "rx_mux (rx_dsps s' ! i) = map rx_mux (rx_dsps s') ! i" using len by simp
    also have "\<dots> = rx_mux (rx_dsps s1 ! i)" using s'(2) \<open>i < length (rx_dsps s1)\<close> by simp
    finally show "Some (rx_mux (rx_dsps s' ! i)) = tree s (rx_connection_path (spec ! i))"
      using s1(4) i by simp
  qed
  with u s' show ?thesis by simp
qed

lemma update_tx_subdev_spec_ok:
  assumes "validate_subdev_spec env (tree s) spec ''tx'' = None" and "spec \<noteq> []"
    and "tree s (tx_connection_path (spec ! 0)) = Some conn"
  shows "update_tx_subdev_spec env spec s =
     Inr (s\<lparr>tx_fe := (tx_fe s)\<lparr>tx_mux := conn\<rparr>,
            io := (io s)\<lparr>send_handler :=
                    map (\<lambda>c. c\<lparr>xport_chan_get_send_buff := True\<rparr>)
                      (resize \<lparr>xport_chan_get_send_buff = False\<rparr> (length spec)
                         (send_handler (io s)))\<rparr>\<rparr>)"
  using assms
  by (simp add: update_tx_subdev_spec_def access_def Let_def tx_connection_path_def)

lemma sample_validate:
  "validate_subdev_spec sample_env = validate_subdev_spec_model"
  "get_sample_size sample_env (rx_otw_type sample_b100) = 4"
  "tree sample_b100 = sample_tree"
  by (simp_all add: sample_env_def sample_b100_def)

lemma sample_tree_tx:
  "sample_tree (tx_connection_path \<lparr>db_name = ''A'', sd_name = ''A''\<rparr>) = Some ''IQ''"
  "sample_tree (tx_connection_path \<lparr>db_name = ''A'', sd_name = ''B''\<rparr>) = Some ''QI''"
  by (simp_all add: sample_tree_def tx_connection_path_def root_def)

lemma sample_tree_rx:
  "sample_tree (rx_connection_path \<lparr>db_name = ''A'', sd_name = ''A''\<rparr>) = Some ''IQ''"
  "sample_tree (rx_connection_path \<lparr>db_name = ''A'', sd_name = ''B''\<rparr>) = Some ''QI''"
  by (simp_all add: sample_tree_def rx_connection_path_def root_def)

lemma sample_validate_ok:
  "validate_subdev_spec_model sample_tree
     [\<lparr>db_name = ''A'', sd_name = ''A''\<rparr>, \<lparr>db_name = ''A'', sd_name = ''B''\<rparr>] ''rx'' = None"
  "validate_subdev_spec_model sample_tree
     [\<lparr>db_name = ''A'', sd_name = ''A''\<rparr>, \<lparr>db_name = ''A'', sd_name = ''B''\<rparr>] ''tx'' = None"
  "validate_subdev_spec_model sample_tree [\<lparr>db_name = ''A'', sd_name = ''A''\<rparr>] ''tx'' = None"
  "validate_subdev_spec_model sample_tree [] ''tx'' = None"
  by (simp_all add: validate_subdev_spec_model_def sample_tree_def root_def)

text \<open>
  C3, as the code has it. When the spec is accepted, every entry has a connection in the
  tree, there are at least as many receive DSPs as entries and the sample size is not
  zero, \<^verbatim>\<open>update_rx_subdev_spec\<close> succeeds and has programmed the mux of DSP \<open>i\<close>
  with the connection of entry \<open>i\<close>, for every entry. \<^verbatim>\<open>update_tx_subdev_spec\<close>
  resolves the connection of the first entry only and programs the one transmit
  front-end with it; it asks nothing of the other entries.
\<close>

theorem update_subdev_spec_programs_mux:
  "(validate_subdev_spec env (tree s) spec ''rx'' = None
      \<and> (\<forall>i<length spec. tree s (rx_connection_path (spec ! i)) \<noteq> None)
      \<and> length spec \<le> length (rx_dsps s) \<and> get_sample_size env (rx_otw_type s) \<noteq> 0
    \<longrightarrow> (\<exists>s'. update_rx_subdev_spec env spec s = Inr s'
          \<and> (\<forall>i<length spec.
                Some (rx_mux (rx_dsps s' ! i)) = tree s (rx_connection_path (spec ! i)))
          \<and> length (recv_handler (io s')) = length spec))
   \<and> (validate_subdev_spec env (tree u) tspec ''tx'' = None \<and> tspec \<noteq> []
      \<and> tree u (tx_connection_path (tspec ! 0)) = Some conn
    \<longrightarrow> (\<exists>u'. update_tx_subdev_spec env tspec u = Inr u' \<and> tx_mux (tx_fe u') = conn
          \<and> rx_dsps u' = rx_dsps u \<and> length (send_handler (io u')) = length tspec))"
proof (intro conjI impI)
  assume "validate_subdev_spec env (tree s) spec ''rx'' = None
      \<and> (\<forall>i<length spec. tree s (rx_connection_path (spec ! i)) \<noteq> None)
      \<and> length spec \<le> length (rx_dsps s) \<and> get_sample_size env (rx_otw_type s) \<noteq> 0"
  then show "\<exists>s'. update_rx_subdev_spec env spec s = Inr s'
          \<and> (\<forall>i<length spec.
                Some (rx_mux (rx_dsps s' ! i)) = tree s (rx_connection_path (spec ! i)))
          \<and> length (recv_handler (io s')) = length spec"
    by (intro update_rx_subdev_spec_ok) simp_all
next
  assume "validate_subdev_spec env (tree u) tspec ''tx'' = None \<and> tspec \<noteq> []
      \<and> tree u (tx_connection_path (tspec ! 0)) = Some conn"
  then have "update_tx_subdev_spec env tspec u =
     Inr (u\<lparr>tx_fe := (tx_fe u)\<lparr>tx_mux := conn\<rparr>,
            io := (io u)\<lparr>send_handler :=
                    map (\<lambda>c. c\<lparr>xport_chan_get_send_buff := True\<rparr>)
                      (resize \<lparr>xport_chan_get_send_buff = False\<rparr> (length tspec)
                         (send_handler (io u)))\<rparr>\<rparr>)"
    by (intro update_tx_subdev_spec_ok) simp_all
  then show "\<exists>u'. update_tx_subdev_spec env tspec u = Inr u' \<and> tx_mux (tx_fe u') = conn
          \<and> rx_dsps u' = rx_dsps u \<and> length (send_handler (io u')) = length tspec"
    by simp
qed

theorem update_subdev_spec_programs_mux_witness:
  "(\<exists>s'. update_rx_subdev_spec sample_env
            [\<lparr>db_name = ''A'', sd_name = ''A''\<rparr>, \<lparr>db_name = ''A'', sd_name = ''B''\<rparr>]
            sample_b100 = Inr s'
         \<and> rx_mux (rx_dsps s' ! 0) = ''IQ'' \<and> rx_mux (rx_dsps s' ! 1) = ''QI'')
   \<and> (\<exists>u'. update_tx_subdev_spec sample_env [\<lparr>db_name = ''A'', sd_name = ''A''\<rparr>]
            sample_b100 = Inr u'
         \<and> tx_mux (tx_fe u') = ''IQ'')"
proof -
  let ?spec = "[\<lparr>db_name = ''A'', sd_name = ''A''\<rparr>, \<lparr>db_name = ''A'', sd_name = ''B''\<rparr>]"
  let ?tspec = "[\<lparr>db_name = ''A'', sd_name = ''A''\<rparr>]"
  have l: "length (rx_dsps sample_b100) = 2" by (simp add: sample_b100_def)
  have a: "\<forall>i<length ?spec. tree sample_b100 (rx_connection_path (?spec ! i)) \<noteq> None"
    by (simp add: sample_validate sample_tree_rx less_Suc_eq)
  have h: "validate_subdev_spec sample_env (tree sample_b100) ?spec ''rx'' = None
      \<and> (\<forall>i<length ?spec. tree sample_b100 (rx_connection_path (?spec ! i)) \<noteq> None)
      \<and> length ?spec \<le> length (rx_dsps sample_b100)
      \<and> get_sample_size sample_env (rx_otw_type sample_b100) \<noteq> 0"
    using a by (simp add: sample_validate sample_validate_ok l)
  have h': "validate_subdev_spec sample_env (tree sample_b100) ?tspec ''tx'' = None
      \<and> ?tspec \<noteq> []
      \<and> tree sample_b100 (tx_connection_path (?tspec ! 0)) = Some ''IQ''"
    by (simp add: sample_validate sample_validate_ok sample_tree_tx)
  note inst = update_subdev_spec_programs_mux
    [where env = sample_env and s = sample_b100 and spec = ?spec
       and u = sample_b100 and tspec = ?tspec and conn = "''IQ''"]
  from inst [THEN conjunct1, THEN mp, OF h]
  obtain s' where s': "update_rx_subdev_spec sample_env ?spec sample_b100 = Inr s'"
    "\<forall>i<length ?spec. Some (rx_mux (rx_dsps s' ! i))
        = tree sample_b100 (rx_connection_path (?spec ! i))"
    by blast
  from s'(2) have "Some (rx_mux (rx_dsps s' ! 0)) = tree sample_b100 (rx_connection_path (?spec ! 0))"
    "Some (rx_mux (rx_dsps s' ! 1)) = tree sample_b100 (rx_connection_path (?spec ! 1))"
    by simp_all
  then have "rx_mux (rx_dsps s' ! 0) = ''IQ''" "rx_mux (rx_dsps s' ! 1) = ''QI''"
    by (simp_all add: sample_validate sample_tree_rx)
  with s'(1) have "\<exists>s'. update_rx_subdev_spec sample_env ?spec sample_b100 = Inr s'
         \<and> rx_mux (rx_dsps s' ! 0) = ''IQ'' \<and> rx_mux (rx_dsps s' ! 1) = ''QI''"
    by blast
  moreover from inst [THEN conjunct2, THEN mp, OF h']
  have "\<exists>u'. update_tx_subdev_spec sample_env ?tspec sample_b100 = Inr u'
         \<and> tx_mux (tx_fe u') = ''IQ''"
    by blast
  ultimately show ?thesis by blast
qed

text \<open>
  C3 as stated fails for the transmit direction: with a spec of two entries whose
  connections are \<open>IQ\<close> and \<open>QI\<close>, both in the tree, \<^verbatim>\<open>update_tx_subdev_spec\<close>
  succeeds and the only mux it has programmed is that of the transmit front-end, with
  the connection of the first entry. The connection of the second entry is put nowhere.
\<close>

theorem update_tx_subdev_spec_second_entry_counterexample:
  "validate_subdev_spec sample_env (tree sample_b100)
      [\<lparr>db_name = ''A'', sd_name = ''A''\<rparr>, \<lparr>db_name = ''A'', sd_name = ''B''\<rparr>] ''tx'' = None
   \<and> tree sample_b100
       (tx_connection_path
          ([\<lparr>db_name = ''A'', sd_name = ''A''\<rparr>, \<lparr>db_name = ''A'', sd_name = ''B''\<rparr>] ! 1))
      = Some ''QI''
   \<and> update_tx_subdev_spec sample_env
       [\<lparr>db_name = ''A'', sd_name = ''A''\<rparr>, \<lparr>db_name = ''A'', sd_name = ''B''\<rparr>] sample_b100
      = Inr (sample_b100
              \<lparr>tx_fe := \<lparr>tx_mux = ''IQ''\<rparr>,
               io := (io sample_b100)
                  \<lparr>send_handler := [\<lparr>xport_chan_get_send_buff = True\<rparr>,
                                    \<lparr>xport_chan_get_send_buff = True\<rparr>]\<rparr>\<rparr>)"
proof -
  let ?spec = "[\<lparr>db_name = ''A'', sd_name = ''A''\<rparr>, \<lparr>db_name = ''A'', sd_name = ''B''\<rparr>]"
  have v: "validate_subdev_spec sample_env (tree sample_b100) ?spec ''tx'' = None"
    by (simp add: sample_validate sample_validate_ok)
  have c: "tree sample_b100 (tx_connection_path (?spec ! 0)) = Some ''IQ''"
    by (simp add: sample_validate sample_tree_tx)
  have c1: "tree sample_b100 (tx_connection_path (?spec ! 1)) = Some ''QI''"
    by (simp add: sample_validate sample_tree_tx)
  have "update_tx_subdev_spec sample_env ?spec sample_b100
      = Inr (sample_b100
              \<lparr>tx_fe := \<lparr>tx_mux = ''IQ''\<rparr>,
               io := (io sample_b100)
                  \<lparr>send_handler := [\<lparr>xport_chan_get_send_buff = True\<rparr>,
                                    \<lparr>xport_chan_get_send_buff = True\<rparr>]\<rparr>\<rparr>)"
    unfolding update_tx_subdev_spec_ok [OF v _ c, simplified]
    by (simp add: sample_b100_def io_impl_new_def resize_def numeral_2_eq_2)
  with v c1 show ?thesis by blast
qed

text \<open>
  C10. \<^verbatim>\<open>update_tx_subdev_spec\<close> has no check of its own that the spec has an entry:
  once \<^verbatim>\<open>validate_subdev_spec\<close> has let the spec through, the read of \<^verbatim>\<open>spec[0]\<close> is
  out of range exactly when the spec is empty, and then nothing has been resized. For a
  spec with an entry the result is decided by the connection of its first entry.
\<close>

theorem update_tx_subdev_spec_needs_first_entry:
  assumes "validate_subdev_spec env (tree s) spec ''tx'' = None"
  shows "(update_tx_subdev_spec env spec s = Inl OutOfRange \<longleftrightarrow> spec = [])
     \<and> (spec \<noteq> [] \<longrightarrow>
          update_tx_subdev_spec env spec s =
            (case tree s (tx_connection_path (spec ! 0)) of
               None \<Rightarrow> Inl (lookup_error (concat (tx_connection_path (spec ! 0))))
             | Some conn \<Rightarrow>
                 Inr (s\<lparr>tx_fe := (tx_fe s)\<lparr>tx_mux := conn\<rparr>,
                        io := (io s)\<lparr>send_handler :=
                          map (\<lambda>c. c\<lparr>xport_chan_get_send_buff := True\<rparr>)
                            (resize \<lparr>xport_chan_get_send_buff = False\<rparr> (length spec)
                               (send_handler (io s)))\<rparr>\<rparr>)))"
  using assms
  by (auto simp: update_tx_subdev_spec_def access_def Let_def tx_connection_path_def
           split: option.splits)

theorem update_tx_subdev_spec_needs_first_entry_witness:
  "validate_subdev_spec sample_env (tree sample_b100) [] ''tx'' = None
   \<and> update_tx_subdev_spec sample_env [] sample_b100 = Inl OutOfRange
   \<and> validate_subdev_spec sample_env (tree sample_b100)
        [\<lparr>db_name = ''A'', sd_name = ''A''\<rparr>] ''tx'' = None
   \<and> update_tx_subdev_spec sample_env [\<lparr>db_name = ''A'', sd_name = ''A''\<rparr>] sample_b100
       \<noteq> Inl OutOfRange"
proof -
  have v: "validate_subdev_spec sample_env (tree sample_b100) [] ''tx'' = None"
    "validate_subdev_spec sample_env (tree sample_b100)
        [\<lparr>db_name = ''A'', sd_name = ''A''\<rparr>] ''tx'' = None"
    by (simp_all add: sample_validate sample_validate_ok)
  from update_tx_subdev_spec_needs_first_entry [OF v(1)]
  have "update_tx_subdev_spec sample_env [] sample_b100 = Inl OutOfRange" by simp
  moreover from update_tx_subdev_spec_needs_first_entry [OF v(2)]
  have "update_tx_subdev_spec sample_env [\<lparr>db_name = ''A'', sd_name = ''A''\<rparr>] sample_b100
       \<noteq> Inl OutOfRange" by blast
  ultimately show ?thesis using v by blast
qed

end
